theory Spec2Isabelle
  imports Main "HOL-Library.Word"
begin

section \<open>The asynchronous file sink (default\_logger.go)\<close>

text \<open>
  Go's \<^verbatim>\<open>[]byte\<close> and \<^verbatim>\<open>string\<close> are byte sequences; both are modelled as
  \<^typ>\<open>string\<close> (a list of 8-bit characters).
\<close>

type_synonym bytes = string

text \<open>
  Go \<^verbatim>\<open>error\<close> values. \<^verbatim>\<open>ErrLogFileClosed\<close> is the package-level sentinel
  \<^verbatim>\<open>errors.New("error: log file closed")\<close>; every other error (from the operating
  system, from a writer, from the JSON encoder) carries its message.
\<close>

datatype error = ErrLogFileClosed | OtherError string

fun Error_text :: "error \<Rightarrow> string" where
  "Error_text ErrLogFileClosed = ''error: log file closed''"
| "Error_text (OtherError m) = m"

definition bufferSize :: nat where
  "bufferSize = 100"

text \<open>
  The \<^verbatim>\<open>*os.File\<close> behind the sink, as far as the sink uses it: the bytes written
  through the handle, how often \<^verbatim>\<open>Sync\<close> and \<^verbatim>\<open>Close\<close> have been called on it, and
  what the operating system answers to those two calls (\<open>sync_err\<close>, \<open>close_err\<close>; they
  belong to the environment).
\<close>

record os_File =
  contents :: bytes
  sync_calls :: nat
  close_calls :: nat
  sync_err :: "error option"
  close_err :: "error option"

definition File_Write :: "bytes \<Rightarrow> os_File \<Rightarrow> os_File" where
  "File_Write v f = (if close_calls f = 0 then f\<lparr>contents := contents f @ v\<rparr> else f)"

definition File_Sync :: "os_File \<Rightarrow> error option \<times> os_File" where
  "File_Sync f = (sync_err f, f\<lparr>sync_calls := Suc (sync_calls f)\<rparr>)"

definition File_Close :: "os_File \<Rightarrow> error option \<times> os_File" where
  "File_Close f = (close_err f, f\<lparr>close_calls := Suc (close_calls f)\<rparr>)"

text \<open>
  \<^verbatim>\<open>DefaultLogger\<close>. \<open>channel\<close> is the buffered channel of capacity \<open>bufferSize\<close>
  (oldest item first), \<open>done_ch\<close> tells whether \<^verbatim>\<open>close(l.done)\<close> has run, \<open>waitGroup\<close>
  is the wait group's counter (the number of running workers) and \<open>closeOnce\<close> tells
  whether the \<^verbatim>\<open>sync.Once\<close> has fired.
\<close>

record DefaultLogger =
  filename :: string
  fp :: "os_File option"
  channel :: "bytes list"
  done_ch :: bool
  waitGroup :: nat
  closeOnce :: bool

text \<open>
  A \<^verbatim>\<open>select\<close> with several ready cases takes one of them, chosen by the runtime.
  The choice is a parameter of the model: \<open>ChanCase\<close> is the case on \<^verbatim>\<open>l.channel\<close>
  (the send in \<^verbatim>\<open>Write\<close>, the receive in the worker), \<open>DoneCase\<close> the case on
  \<^verbatim>\<open>l.done\<close>. It is only looked at when both cases are ready.
\<close>

datatype select_case = ChanCase | DoneCase

text \<open>
  The environment of \<^verbatim>\<open>init\<close>: which paths \<^verbatim>\<open>os.Stat\<close> finds, and the errors of
  \<^verbatim>\<open>os.MkdirAll\<close>, \<^verbatim>\<open>os.Create\<close> and \<^verbatim>\<open>os.OpenFile\<close>; \<open>path_Dir\<close> is \<^verbatim>\<open>path.Dir\<close>;
  \<open>fresh_file\<close> is the handle a successful open returns.
\<close>

record os_env =
  stat_ok :: "string \<Rightarrow> bool"
  mkdir_err :: "string \<Rightarrow> error option"
  create_err :: "string \<Rightarrow> error option"
  open_err :: "string \<Rightarrow> error option"
  path_Dir :: "string \<Rightarrow> string"
  fresh_file :: os_File

definition init :: "os_env \<Rightarrow> DefaultLogger \<Rightarrow> error + DefaultLogger" where
  "init env l =
     (if \<not> stat_ok env (filename l) then
        (let basePath = path_Dir env (filename l);
             mk = (if \<not> stat_ok env basePath then mkdir_err env basePath else None)
         in case mk of
              Some err \<Rightarrow> Inl err
            | None \<Rightarrow>
                (case create_err env (filename l) of
                   Some err \<Rightarrow> Inl err
                 | None \<Rightarrow> Inr (l\<lparr>fp := Some (fresh_file env)\<rparr>)))
      else
        (case open_err env (filename l) of
           Some err \<Rightarrow> Inl err
         | None \<Rightarrow> Inr (l\<lparr>fp := Some (fresh_file env)\<rparr>)))"

definition startWorker :: "DefaultLogger \<Rightarrow> DefaultLogger" where
  "startWorker l = l\<lparr>waitGroup := waitGroup l + 1\<rparr>"

definition NewLogger :: "os_env \<Rightarrow> string \<Rightarrow> error + DefaultLogger" where
  "NewLogger env name =
     (case init env \<lparr>filename = name, fp = None, channel = [], done_ch = False,
                     waitGroup = 0, closeOnce = False\<rparr> of
        Inl err \<Rightarrow> Inl err
      | Inr l \<Rightarrow> Inr (startWorker l))"

text \<open>\<^verbatim>\<open>l.write\<close> (\<open>write\<close> is a keyword here): the worker's write to the file; the result of the write is dropped.\<close>

definition logger_write :: "bytes \<Rightarrow> DefaultLogger \<Rightarrow> DefaultLogger" where
  "logger_write v l = (case fp l of None \<Rightarrow> l | Some f \<Rightarrow> l\<lparr>fp := Some (File_Write v f)\<rparr>)"

text \<open>
  \<^verbatim>\<open>Write\<close>. The second component of the state is the output of the standard
  \<^verbatim>\<open>log\<close> package (the arguments of \<^verbatim>\<open>log.Println\<close>, oldest first). The send case is
  ready when the buffer has room, the done case when \<^verbatim>\<open>done\<close> has been closed; with
  both ready the runtime's choice decides, with neither ready the call blocks, which is
  the result \<open>None\<close>.
\<close>

definition Write ::
  "select_case \<Rightarrow> bytes \<Rightarrow> DefaultLogger \<times> bytes list
     \<Rightarrow> ((nat \<times> error option) \<times> DefaultLogger \<times> bytes list) option" where
  "Write pick data s =
     (case s of (l, stdlog) \<Rightarrow>
        (let send = Some ((length data, None), l\<lparr>channel := channel l @ [data]\<rparr>, stdlog);
             closed = Some ((0, Some ErrLogFileClosed), l, stdlog @ [data])
         in if length (channel l) < bufferSize then
              (if done_ch l then (case pick of ChanCase \<Rightarrow> send | DoneCase \<Rightarrow> closed)
               else send)
            else if done_ch l then closed
            else None))"

text \<open>
  One iteration of the worker's \<^verbatim>\<open>for { select { ... } }\<close>. The result tells whether the
  worker goes on (\<open>True\<close>) or has returned, running the deferred \<^verbatim>\<open>waitGroup.Done()\<close>.
  With an empty channel and \<^verbatim>\<open>done\<close> open the worker waits: the state is unchanged.
\<close>

definition worker_step :: "select_case \<Rightarrow> DefaultLogger \<Rightarrow> bool \<times> DefaultLogger" where
  "worker_step pick l =
     (let returned = (False, l\<lparr>waitGroup := waitGroup l - 1\<rparr>) in
      case channel l of
        [] \<Rightarrow> if done_ch l then returned else (True, l)
      | event # rest \<Rightarrow>
          (let received = (True, logger_write event (l\<lparr>channel := rest\<rparr>)) in
           if done_ch l then (case pick of ChanCase \<Rightarrow> received | DoneCase \<Rightarrow> returned)
           else received))"

text \<open>
  The worker running on its own until it returns, as it does while \<^verbatim>\<open>Close\<close> sits in
  \<^verbatim>\<open>waitGroup.Wait()\<close>. \<open>picks\<close> are the runtime's choices at the successive selects
  that have both cases ready; a choice that is not listed is the done case. \<open>None\<close>: the
  worker waits for ever (empty channel, \<^verbatim>\<open>done\<close> never closed).
\<close>

function worker_loop :: "select_case list \<Rightarrow> DefaultLogger \<Rightarrow> DefaultLogger option" where
  "worker_loop picks l =
     (case channel l of
        [] \<Rightarrow> if done_ch l then Some (snd (worker_step DoneCase l)) else None
      | event # rest \<Rightarrow>
          if done_ch l then
            (case picks of
               ChanCase # ps \<Rightarrow> worker_loop ps (snd (worker_step ChanCase l))
             | _ \<Rightarrow> Some (snd (worker_step DoneCase l)))
          else worker_loop picks (snd (worker_step ChanCase l)))"
  by pat_completeness auto
termination
  by (relation "measure (\<lambda>(picks, l). length (channel l))")
     (auto simp: worker_step_def logger_write_def split: option.splits)

definition waitGroup_Wait :: "select_case list \<Rightarrow> DefaultLogger \<Rightarrow> DefaultLogger option" where
  "waitGroup_Wait picks l = (if waitGroup l = 0 then Some l else worker_loop picks l)"

text \<open>
  \<^verbatim>\<open>Close\<close>. The body of \<^verbatim>\<open>closeOnce.Do\<close> runs when the once has not fired; a nil
  \<^verbatim>\<open>*os.File\<close> answers \<^verbatim>\<open>Sync\<close> with \<^verbatim>\<open>os.ErrInvalid\<close>.
\<close>

definition Close ::
  "select_case list \<Rightarrow> DefaultLogger \<Rightarrow> (error option \<times> DefaultLogger) option" where
  "Close picks l =
     (if closeOnce l then Some (None, l)
      else
        (case waitGroup_Wait picks (l\<lparr>closeOnce := True, done_ch := True\<rparr>) of
           None \<Rightarrow> None
         | Some l1 \<Rightarrow>
             (case fp l1 of
                None \<Rightarrow> Some (Some (OtherError ''invalid argument''), l1)
              | Some f \<Rightarrow>
                  (case File_Sync f of
                     (Some err, f1) \<Rightarrow> Some (Some err, l1\<lparr>fp := Some f1\<rparr>)
                   | (None, f1) \<Rightarrow>
                       (case File_Close f1 of
                          (err, f2) \<Rightarrow> Some (err, l1\<lparr>fp := Some f2\<rparr>))))))"

text \<open>
  \<^verbatim>\<open>Close\<close> called several times in a row on the same sink, one list of runtime
  choices per call; the results are collected in call order. The \<^verbatim>\<open>sync.Once\<close> lets
  concurrent callers through one at a time, the later ones only after the first has
  finished the body, so calls that overlap in time behave as calls in a row.
\<close>

fun Close_calls ::
  "select_case list list \<Rightarrow> DefaultLogger \<Rightarrow> (error option list \<times> DefaultLogger) option" where
  "Close_calls [] l = Some ([], l)"
| "Close_calls (picks # rest) l =
     (case Close picks l of
        None \<Rightarrow> None
      | Some (err, l1) \<Rightarrow>
          (case Close_calls rest l1 of
             None \<Rightarrow> None
           | Some (errs, l2) \<Rightarrow> Some (err # errs, l2)))"

text \<open>
  Two environments for concrete runs: one where no path exists yet and every call of the
  operating system succeeds, and one that differs only in that \<^verbatim>\<open>Sync\<close> on the new
  file fails.
\<close>

definition new_handle :: os_File where
  "new_handle = \<lparr>contents = [], sync_calls = 0, close_calls = 0,
                  sync_err = None, close_err = None\<rparr>"

definition quiet_env :: os_env where
  "quiet_env = \<lparr>stat_ok = (\<lambda>p. False), mkdir_err = (\<lambda>p. None), create_err = (\<lambda>p. None),
                 open_err = (\<lambda>p. None), path_Dir = (\<lambda>p. ''logs''), fresh_file = new_handle\<rparr>"

definition sync_fails_env :: os_env where
  "sync_fails_env =
     quiet_env\<lparr>fresh_file := new_handle\<lparr>sync_err := Some (OtherError ''input/output error'')\<rparr>\<rparr>"

text \<open>
  The sink after its worker has taken the \<open>k\<close> oldest items from the channel, written
  them to the file in that order, and returned.
\<close>

definition drained :: "nat \<Rightarrow> DefaultLogger \<Rightarrow> DefaultLogger" where
  "drained k l = l\<lparr>channel := drop k (channel l),
                   fp := map_option (fold File_Write (take k (channel l))) (fp l),
                   waitGroup := waitGroup l - 1\<rparr>"

text \<open>
  How many items a worker takes from the channel once \<^verbatim>\<open>done\<close> is closed: one for each
  leading \<open>ChanCase\<close> among the runtime's choices, and no more than the channel holds.
\<close>

definition taken_after_done :: "select_case list \<Rightarrow> DefaultLogger \<Rightarrow> nat" where
  "taken_after_done picks l =
     min (length (takeWhile (\<lambda>p. p = ChanCase) picks)) (length (channel l))"

declare worker_loop.simps [simp del]

text \<open>
  The sink that \<^verbatim>\<open>NewLogger("logs/app.log")\<close> returns in these two environments: file
  open, queue empty, worker running.
\<close>

definition open_sink :: DefaultLogger where
  "open_sink = \<lparr>filename = ''logs/app.log'', fp = Some new_handle, channel = [],
                 done_ch = False, waitGroup = 1, closeOnce = False\<rparr>"

definition open_sink_sync_fails :: DefaultLogger where
  "open_sink_sync_fails =
     open_sink\<lparr>fp := Some (new_handle\<lparr>sync_err := Some (OtherError ''input/output error'')\<rparr>)\<rparr>"

section \<open>Strings in Go's \<^verbatim>\<open>unicode/utf8\<close> and \<^verbatim>\<open>encoding/json\<close>\<close>

text \<open>
  The encoder hands its records to the standard library's \<^verbatim>\<open>encoding/json\<close>. What that
  package does with a string is modelled here after the library's \<^verbatim>\<open>appendString\<close>
  (with HTML escaping, as \<^verbatim>\<open>json.Marshal\<close> and \<^verbatim>\<open>Encoder.Encode\<close> have it) and
  \<^verbatim>\<open>unquote\<close>, and \<^verbatim>\<open>utf8.DecodeRune\<close> and \<^verbatim>\<open>utf8.EncodeRune\<close> so far as those two
  need them. A byte is a \<^typ>\<open>char\<close>, its value \<open>of_char c\<close>; a rune is a natural number.
\<close>

definition byte :: "char \<Rightarrow> nat" where
  "byte c = of_char c"

definition RuneError :: nat where
  "RuneError = 0xFFFD"

definition between :: "nat \<Rightarrow> nat \<Rightarrow> char \<Rightarrow> bool" where
  "between lo hi c = (lo \<le> byte c \<and> byte c \<le> hi)"

text \<open>The range \<^verbatim>\<open>utf8\<close> accepts for the second byte, by the first byte.\<close>

definition second_lo :: "nat \<Rightarrow> nat" where
  "second_lo b0 = (if b0 = 0xE0 then 0xA0 else if b0 = 0xF0 then 0x90 else 0x80)"

definition second_hi :: "nat \<Rightarrow> nat" where
  "second_hi b0 = (if b0 = 0xED then 0x9F else if b0 = 0xF4 then 0x8F else 0xBF)"

text \<open>
  \<^verbatim>\<open>utf8.DecodeRune\<close>: the first rune of the bytes and its width; \<open>(RuneError, 1)\<close> for
  a byte that starts no well-formed sequence, \<open>(RuneError, 0)\<close> for no bytes.
\<close>

fun DecodeRune :: "bytes \<Rightarrow> nat \<times> nat" where
  "DecodeRune [] = (RuneError, 0)"
| "DecodeRune (c0 # cs) =
     (let b0 = byte c0 in
      if b0 < 0x80 then (b0, 1)
      else if 0xC2 \<le> b0 \<and> b0 \<le> 0xDF then
        (case cs of
           c1 # r1 \<Rightarrow>
             if between 0x80 0xBF c1 then ((b0 - 0xC0) * 64 + (byte c1 - 0x80), 2)
             else (RuneError, 1)
         | [] \<Rightarrow> (RuneError, 1))
      else if 0xE0 \<le> b0 \<and> b0 \<le> 0xEF then
        (case cs of
           c1 # c2 # r2 \<Rightarrow>
             if between (second_lo b0) (second_hi b0) c1 \<and> between 0x80 0xBF c2 then
               ((b0 - 0xE0) * 4096 + (byte c1 - 0x80) * 64 + (byte c2 - 0x80), 3)
             else (RuneError, 1)
         | _ \<Rightarrow> (RuneError, 1))
      else if 0xF0 \<le> b0 \<and> b0 \<le> 0xF4 then
        (case cs of
           c1 # c2 # c3 # r3 \<Rightarrow>
             if between (second_lo b0) (second_hi b0) c1 \<and> between 0x80 0xBF c2 \<and>
                between 0x80 0xBF c3 then
               ((b0 - 0xF0) * 262144 + (byte c1 - 0x80) * 4096 + (byte c2 - 0x80) * 64 +
                  (byte c3 - 0x80), 4)
             else (RuneError, 1)
         | _ \<Rightarrow> (RuneError, 1))
      else (RuneError, 1))"

text \<open>
  \<^verbatim>\<open>utf8.EncodeRune\<close>; a surrogate or a value beyond \<open>U+10FFFF\<close> is written as
  \<open>U+FFFD\<close>.
\<close>

definition EncodeRune :: "nat \<Rightarrow> bytes" where
  "EncodeRune r =
     (if r < 0x80 then [char_of r]
      else if r < 0x800 then [char_of (0xC0 + r div 64), char_of (0x80 + r mod 64)]
      else if 0x10FFFF < r then [char_of (0xEF::nat), char_of (0xBF::nat), char_of (0xBD::nat)]
      else if 0xD800 \<le> r \<and> r \<le> 0xDFFF then
        [char_of (0xEF::nat), char_of (0xBF::nat), char_of (0xBD::nat)]
      else if r < 0x10000 then
        [char_of (0xE0 + r div 4096), char_of (0x80 + r div 64 mod 64), char_of (0x80 + r mod 64)]
      else
        [char_of (0xF0 + r div 262144), char_of (0x80 + r div 4096 mod 64),
         char_of (0x80 + r div 64 mod 64), char_of (0x80 + r mod 64)])"

text \<open>\<^verbatim>\<open>utf8.ValidString\<close>: no byte that \<open>DecodeRune\<close> answers with \<open>(RuneError, 1)\<close>.\<close>

fun ValidString :: "bytes \<Rightarrow> bool" where
  "ValidString [] = True"
| "ValidString (c # cs) =
     (case DecodeRune (c # cs) of
        (r, width) \<Rightarrow>
          if r = RuneError \<and> width = 1 then False else ValidString (drop (width - 1) cs))"

text \<open>
  What \<^verbatim>\<open>encoding/json\<close> makes of a string that is not valid UTF-8: every byte that
  starts no well-formed sequence becomes \<open>U+FFFD\<close>.
\<close>

fun coerced :: "bytes \<Rightarrow> bytes" where
  "coerced [] = []"
| "coerced (c # cs) =
     (case DecodeRune (c # cs) of
        (r, width) \<Rightarrow>
          if r = RuneError \<and> width = 1 then EncodeRune RuneError @ coerced cs
          else c # take (width - 1) cs @ coerced (drop (width - 1) cs))"

definition dquote :: char where
  "dquote = CHR 0x22"

definition backslash :: char where
  "backslash = CHR 0x5C"

definition hex :: "nat \<Rightarrow> char" where
  "hex n = ''0123456789abcdef'' ! (n mod 16)"

text \<open>
  The ASCII bytes \<^verbatim>\<open>appendString\<close> copies as they are (\<^verbatim>\<open>htmlSafeSet\<close>): from the
  space on, without the double quote, the backslash and \<open><\<close>, \<open>>\<close>, \<open>&\<close>.
\<close>

definition htmlSafe :: "char \<Rightarrow> bool" where
  "htmlSafe c = (0x20 \<le> byte c \<and> byte c < 0x80 \<and>
                 c \<noteq> dquote \<and> c \<noteq> backslash \<and> c \<noteq> CHR ''<'' \<and> c \<noteq> CHR ''>'' \<and> c \<noteq> CHR ''&'')"

definition escape :: "char \<Rightarrow> bytes" where
  "escape c =
     (if c = backslash \<or> c = dquote then [backslash, c]
      else if c = CHR 0x08 then [backslash, CHR ''b'']
      else if c = CHR 0x0C then [backslash, CHR ''f'']
      else if c = CHR 0x0A then [backslash, CHR ''n'']
      else if c = CHR 0x0D then [backslash, CHR ''r'']
      else if c = CHR 0x09 then [backslash, CHR ''t'']
      else [backslash, CHR ''u'', CHR ''0'', CHR ''0'', hex (byte c div 16), hex (byte c mod 16)])"

text \<open>The loop of \<^verbatim>\<open>appendString\<close>, between the two quotes.\<close>

fun appendString_body :: "bytes \<Rightarrow> bytes" where
  "appendString_body [] = []"
| "appendString_body (c # cs) =
     (if byte c < 0x80 then
        (if htmlSafe c then c # appendString_body cs else escape c @ appendString_body cs)
      else
        (case DecodeRune (c # cs) of
           (r, width) \<Rightarrow>
             if r = RuneError \<and> width = 1 then
               [backslash, CHR ''u'', CHR ''f'', CHR ''f'', CHR ''f'', CHR ''d''] @ appendString_body cs
             else if r = 0x2028 \<or> r = 0x2029 then
               [backslash, CHR ''u'', CHR ''2'', CHR ''0'', CHR ''2'', hex (r mod 16)]
                 @ appendString_body (drop (width - 1) cs)
             else c # take (width - 1) cs @ appendString_body (drop (width - 1) cs)))"

definition appendString :: "bytes \<Rightarrow> bytes" where
  "appendString s = dquote # appendString_body s @ [dquote]"

text \<open>\<^verbatim>\<open>getu4\<close>: the value of four hexadecimal digits.\<close>

definition unhex :: "char \<Rightarrow> nat option" where
  "unhex c =
     (if between 0x30 0x39 c then Some (byte c - 0x30)
      else if between 0x61 0x66 c then Some (byte c - 0x61 + 10)
      else if between 0x41 0x46 c then Some (byte c - 0x41 + 10)
      else None)"

fun getu4 :: "bytes \<Rightarrow> nat option" where
  "getu4 (a # b # c # d # rest) =
     (case (unhex a, unhex b, unhex c, unhex d) of
        (Some x3, Some x2, Some x1, Some x0) \<Rightarrow> Some (x3 * 4096 + x2 * 256 + x1 * 16 + x0)
      | _ \<Rightarrow> None)"
| "getu4 s = None"

definition IsSurrogate :: "nat \<Rightarrow> bool" where
  "IsSurrogate r = (0xD800 \<le> r \<and> r < 0xE000)"

text \<open>
  \<^verbatim>\<open>utf16.DecodeRune\<close> on what follows a surrogate escape: the rune of a well-formed
  pair \<^verbatim>\<open>\uXXXX\uYYYY\<close>, if there is one.
\<close>

definition surrogate_pair :: "nat \<Rightarrow> bytes \<Rightarrow> nat option" where
  "surrogate_pair r1 s =
     (case s of
        b # u # rest \<Rightarrow>
          if b = backslash \<and> u = CHR ''u'' then
            (case getu4 rest of
               Some r2 \<Rightarrow>
                 if r1 < 0xDC00 \<and> 0xDC00 \<le> r2 \<and> r2 < 0xE000 then
                   Some ((r1 - 0xD800) * 1024 + (r2 - 0xDC00) + 0x10000)
                 else None
             | None \<Rightarrow> None)
          else None
      | _ \<Rightarrow> None)"

definition prepend :: "bytes \<Rightarrow> (bytes \<times> bytes) option \<Rightarrow> (bytes \<times> bytes) option" where
  "prepend p r = (case r of None \<Rightarrow> None | Some (t, rest) \<Rightarrow> Some (p @ t, rest))"

text \<open>
  \<^verbatim>\<open>unquote\<close>, reading a string literal from after its opening quote: the string it
  stands for and the text after its closing quote; \<open>None\<close> for a malformed literal.
\<close>

fun unquote_body :: "bytes \<Rightarrow> (bytes \<times> bytes) option" where
  "unquote_body [] = None"
| "unquote_body (c # cs) =
     (if c = dquote then Some ([], cs)
      else if c = backslash then
        (case cs of
           [] \<Rightarrow> None
         | e # es \<Rightarrow>
             if e = dquote \<or> e = backslash \<or> e = CHR ''/'' \<or> e = CHR 0x27 then
               prepend [e] (unquote_body es)
             else if e = CHR ''b'' then prepend [CHR 0x08] (unquote_body es)
             else if e = CHR ''f'' then prepend [CHR 0x0C] (unquote_body es)
             else if e = CHR ''n'' then prepend [CHR 0x0A] (unquote_body es)
             else if e = CHR ''r'' then prepend [CHR 0x0D] (unquote_body es)
             else if e = CHR ''t'' then prepend [CHR 0x09] (unquote_body es)
             else if e = CHR ''u'' then
               (case getu4 es of
                  None \<Rightarrow> None
                | Some r \<Rightarrow>
                    if IsSurrogate r then
                      (case surrogate_pair r (drop 4 es) of
                         Some r' \<Rightarrow> prepend (EncodeRune r') (unquote_body (drop 10 es))
                       | None \<Rightarrow> prepend (EncodeRune RuneError) (unquote_body (drop 4 es)))
                    else prepend (EncodeRune r) (unquote_body (drop 4 es)))
             else None)
      else if byte c < 0x20 then None
      else if byte c < 0x80 then prepend [c] (unquote_body cs)
      else
        (case DecodeRune (c # cs) of
           (r, width) \<Rightarrow> prepend (EncodeRune r) (unquote_body (drop (width - 1) cs))))"

definition unquote :: "bytes \<Rightarrow> (bytes \<times> bytes) option" where
  "unquote s = (case s of [] \<Rightarrow> None | c # cs \<Rightarrow> if c = dquote then unquote_body cs else None)"

text \<open>
  \<^verbatim>\<open>json.Unmarshal\<close> of a record, so far as reading back the encoder's output needs it:
  a JSON object whose members are strings, written without white space between the
  tokens, with white space allowed after it. \<open>parse_members\<close> reads the members up to
  the closing brace; its first argument bounds their number.
\<close>

fun parse_members :: "nat \<Rightarrow> bytes \<Rightarrow> ((bytes \<times> bytes) list \<times> bytes) option" where
  "parse_members 0 s = None"
| "parse_members (Suc n) s =
     (case unquote s of
        None \<Rightarrow> None
      | Some (k, s1) \<Rightarrow>
          (case s1 of
             [] \<Rightarrow> None
           | c # s2 \<Rightarrow>
               if c = CHR '':'' then
                 (case unquote s2 of
                    None \<Rightarrow> None
                  | Some (v, s3) \<Rightarrow>
                      (case s3 of
                         [] \<Rightarrow> None
                       | d # s4 \<Rightarrow>
                           if d = CHR '','' then
                             (case parse_members n s4 of
                                None \<Rightarrow> None
                              | Some (ms, rest) \<Rightarrow> Some ((k, v) # ms, rest))
                           else if d = CHR ''}'' then Some ([(k, v)], s4)
                           else None))
               else None))"

definition is_space :: "char \<Rightarrow> bool" where
  "is_space c = (c = CHR '' '' \<or> c = CHR 0x09 \<or> c = CHR 0x0A \<or> c = CHR 0x0D)"

definition Unmarshal_object :: "bytes \<Rightarrow> (bytes \<times> bytes) list option" where
  "Unmarshal_object s =
     (case s of
        [] \<Rightarrow> None
      | c # s1 \<Rightarrow>
          if c = CHR ''{'' then
            (case parse_members (length s) s1 of
               None \<Rightarrow> None
             | Some (ms, rest) \<Rightarrow> if list_all is_space rest then Some ms else None)
          else None)"

text \<open>
  Decoding into the struct of the tests, \<^verbatim>\<open>mockedEntry\<close>, with its string fields
  \<^verbatim>\<open>Level\<close> (key \<open>level\<close>) and \<^verbatim>\<open>Content\<close> (key \<open>content\<close>): a key that is missing
  leaves the field empty, of a key that occurs twice the last occurrence counts.
\<close>

definition member :: "(bytes \<times> bytes) list \<Rightarrow> bytes \<Rightarrow> bytes" where
  "member ms k = (case map_of (rev ms) k of None \<Rightarrow> [] | Some v \<Rightarrow> v)"

definition Unmarshal_mockedEntry :: "bytes \<Rightarrow> (bytes \<times> bytes) option" where
  "Unmarshal_mockedEntry s =
     (case Unmarshal_object s of
        None \<Rightarrow> None
      | Some ms \<Rightarrow> Some (member ms ''level'', member ms ''content''))"

section \<open>The encoder (writer.go)\<close>

text \<open>
  An \<^verbatim>\<open>interface{}\<close> payload, as far as the encoder looks at it. Its dynamic type is
  either \<^verbatim>\<open>string\<close>, or another type, of which the type switch and the JSON encoder
  see three things: the result of its \<^verbatim>\<open>Error()\<close> method when it implements \<^verbatim>\<open>error\<close>,
  the result of its \<^verbatim>\<open>String()\<close> method when it implements \<^verbatim>\<open>fmt.Stringer\<close>, and what
  \<^verbatim>\<open>encoding/json\<close> makes of it (an error, or its JSON text).
\<close>

datatype any =
    StringVal string
  | OtherVal (Error_method: "string option") (String_method: "string option")
      (json_text: "error + bytes")

text \<open>
  An \<^verbatim>\<open>io.WriteCloser\<close> behind a writer. The model keeps its identity and its kind: the
  \<open>n\<close>-th object made by \<^verbatim>\<open>newLogWriter\<close> (which is not among the sources; it wraps a
  standard logger that prints to the console), or the \<^verbatim>\<open>*DefaultLogger\<close> that the
  \<open>n\<close>-th creation made for a path. What is written to it is recorded in the process
  state; what its \<^verbatim>\<open>Write\<close> and \<^verbatim>\<open>Close\<close> return belongs to the environment.
\<close>

datatype io_Writer = logWriter nat | fileLogger nat string

text \<open>
  A \<^verbatim>\<open>Writer\<close>: a \<^verbatim>\<open>*defaultWriter\<close> with its \<open>lw\<close>. (The tests' \<^verbatim>\<open>mockWriter\<close> has the
  same two methods, with a \<^verbatim>\<open>strings.Builder\<close> for \<open>lw\<close>.)
\<close>

datatype Writer = defaultWriter (lw: io_Writer)

record LogConf =
  Mode :: string
  Encoding :: string
  PlainEncodingSep :: string
  WithColor :: bool
  TimeFormat :: string
  Path :: string
  Level :: string

text \<open>
  The package-level variables of logs.go, and the effects of the package on the outside:
  how many \<^verbatim>\<open>io.WriteCloser\<close>s have been made, the byte sequences passed to their
  \<^verbatim>\<open>Write\<close> (with the receiver, oldest first), the receivers of \<^verbatim>\<open>Close\<close>, and the
  arguments of \<^verbatim>\<open>log.Println\<close>.
\<close>

record world =
  setupOnce :: bool
  logLevel :: "32 word"
  encoding :: "32 word"
  withColor :: bool
  plainEncodingSep :: string
  timeFormat :: string
  writer :: "Writer option"
  conf :: "LogConf option"
  created :: nat
  written :: "(io_Writer \<times> bytes) list"
  closed :: "io_Writer list"
  stdlog :: "bytes list"

text \<open>
  Modelled from the spec: the package \<^verbatim>\<open>color\<close> is not among the sources. The spec has
  red for the error level, blue for the info level and no colour for any other level, so
  \<open>NoColor\<close> is the zero value of the type.
\<close>

datatype Color = NoColor | FgRed | FgBlue

text \<open>
  What the package reads from the runtime and the standard library: the formatted current
  time by layout, \<^verbatim>\<open>runtime.Caller\<close> by depth, \<^verbatim>\<open>debug.Stack\<close>, the formatting
  functions of \<^verbatim>\<open>fmt\<close>, \<^verbatim>\<open>path.Join\<close>, \<^verbatim>\<open>color.WithColorPadding\<close>, the results of
  \<^verbatim>\<open>Write\<close> and \<^verbatim>\<open>Close\<close> of each \<^verbatim>\<open>io.WriteCloser\<close>, and the file system.
\<close>

record runtime =
  time_Now_Format :: "string \<Rightarrow> string"
  runtime_Caller :: "nat \<Rightarrow> (string \<times> int) option"
  debug_Stack :: bytes
  fmt_Sprint :: "any list \<Rightarrow> string"
  fmt_Sprintf :: "string \<Rightarrow> any list \<Rightarrow> string"
  fmt_Errorf :: "string \<Rightarrow> any list \<Rightarrow> string"
  path_Join :: "string \<Rightarrow> string \<Rightarrow> string"
  WithColorPadding :: "string \<Rightarrow> Color \<Rightarrow> string"
  Write_result :: "io_Writer \<Rightarrow> error option"
  Close_result :: "io_Writer \<Rightarrow> error option"
  os :: os_env

definition callerKey :: string where "callerKey = ''caller''"
definition callerDepth :: nat where "callerDepth = 5"
definition contentKey :: string where "contentKey = ''content''"
definition levelKey :: string where "levelKey = ''level''"
definition timestampKey :: string where "timestampKey = ''@timestamp''"
definition levelInfo :: string where "levelInfo = ''info''"
definition levelError :: string where "levelError = ''error''"

definition InfoLevel :: "32 word" where "InfoLevel = 0"
definition ErrorLevel :: "32 word" where "ErrorLevel = 1"
definition jsonEncodingType :: "32 word" where "jsonEncodingType = 0"
definition plainEncodingType :: "32 word" where "plainEncodingType = 1"
definition plainEncoding :: string where "plainEncoding = ''plain''"
definition fileMode :: string where "fileMode = ''file''"

definition newline :: char where
  "newline = CHR 0x0A"

definition log_Println :: "bytes \<Rightarrow> world \<Rightarrow> world" where
  "log_Println s w = w\<lparr>stdlog := stdlog w @ [s]\<rparr>"

definition io_Write :: "runtime \<Rightarrow> io_Writer \<Rightarrow> bytes \<Rightarrow> world \<Rightarrow> error option \<times> world" where
  "io_Write rt wr p w = (Write_result rt wr, w\<lparr>written := written w @ [(wr, p)]\<rparr>)"

definition io_Close :: "runtime \<Rightarrow> io_Writer \<Rightarrow> world \<Rightarrow> error option \<times> world" where
  "io_Close rt wr w = (Close_result rt wr, w\<lparr>closed := closed w @ [wr]\<rparr>)"

text \<open>\<^verbatim>\<open>fmt.Sprintf("%d", n)\<close>.\<close>

fun digits :: "nat \<Rightarrow> string" where
  "digits n = (if n < 10 then [char_of (48 + n)] else digits (n div 10) @ [char_of (48 + n mod 10)])"

declare digits.simps [simp del]

definition itoa :: "int \<Rightarrow> string" where
  "itoa i = (if i < 0 then CHR ''-'' # digits (nat (- i)) else digits (nat i))"

text \<open>\<^verbatim>\<open>strings.LastIndexByte\<close>: the index of the last occurrence, or \<open>-1\<close>.\<close>

fun LastIndexByte :: "string \<Rightarrow> char \<Rightarrow> int" where
  "LastIndexByte [] c = - 1"
| "LastIndexByte (x # xs) c =
     (let i = LastIndexByte xs c in
      if 0 \<le> i then i + 1 else if x = c then 0 else - 1)"

definition prettyCaller :: "string \<Rightarrow> int \<Rightarrow> string" where
  "prettyCaller file line =
     (let idx = LastIndexByte file (CHR ''/'') in
      if idx < 0 then file @ '':'' @ itoa line
      else
        (let idx2 = LastIndexByte (take (nat idx) file) (CHR ''/'') in
         if idx2 < 0 then file @ '':'' @ itoa line
         else drop (nat (idx2 + 1)) file @ '':'' @ itoa line))"

definition getCaller :: "runtime \<Rightarrow> nat \<Rightarrow> string" where
  "getCaller rt callDepth =
     (case runtime_Caller rt callDepth of
        None \<Rightarrow> ''''
      | Some (file, line) \<Rightarrow> prettyCaller file line)"

definition getTimestamp :: "runtime \<Rightarrow> world \<Rightarrow> string" where
  "getTimestamp rt w = time_Now_Format rt (timeFormat w)"

definition wrapLevelWithColor :: "runtime \<Rightarrow> string \<Rightarrow> string" where
  "wrapLevelWithColor rt level =
     (let colour = (if level = levelError then FgRed
                    else if level = levelInfo then FgBlue
                    else NoColor)
      in if colour = NoColor then level else WithColorPadding rt level colour)"

text \<open>\<^verbatim>\<open>json.Marshal\<close> of a payload; \<^verbatim>\<open>Encoder.Encode\<close> writes the same text and a newline.\<close>

definition Marshal :: "any \<Rightarrow> error + bytes" where
  "Marshal v = (case v of StringVal s \<Rightarrow> Inr (appendString s) | OtherVal e s j \<Rightarrow> j)"

definition writePlainText :: "runtime \<Rightarrow> io_Writer option \<Rightarrow> string \<Rightarrow> string \<Rightarrow> world \<Rightarrow> world" where
  "writePlainText rt wr level msg w =
     (let buf = getTimestamp rt w @ plainEncodingSep w @ level @ plainEncodingSep w @ msg
                  @ plainEncodingSep w @ (callerKey @ ''='' @ getCaller rt callerDepth)
                  @ [newline]
      in case wr of
           None \<Rightarrow> log_Println buf w
         | Some x \<Rightarrow>
             (case io_Write rt x buf w of
                (Some err, w1) \<Rightarrow> log_Println (Error_text err) w1
              | (None, w1) \<Rightarrow> w1))"

definition writePlainValue :: "runtime \<Rightarrow> io_Writer option \<Rightarrow> string \<Rightarrow> any \<Rightarrow> world \<Rightarrow> world" where
  "writePlainValue rt wr level val w =
     (let buf0 = getTimestamp rt w @ plainEncodingSep w @ level @ plainEncodingSep w in
      case Marshal val of
        Inl err \<Rightarrow> log_Println (Error_text err) w
      | Inr text \<Rightarrow>
          (let buf = buf0 @ (text @ [newline]) @ plainEncodingSep w
                       @ (callerKey @ ''='' @ getCaller rt callerDepth) @ [newline]
           in case wr of
                None \<Rightarrow> log_Println buf w
              | Some x \<Rightarrow>
                  (case io_Write rt x buf w of
                     (Some err, w1) \<Rightarrow> log_Println (Error_text err) w1
                   | (None, w1) \<Rightarrow> w1)))"

text \<open>
  \<^verbatim>\<open>writePlainAny\<close>. The type switch tries its cases in the order of the source:
  \<^verbatim>\<open>string\<close>, \<^verbatim>\<open>error\<close>, \<^verbatim>\<open>fmt.Stringer\<close>, default.
\<close>

definition writePlainAny :: "runtime \<Rightarrow> io_Writer option \<Rightarrow> string \<Rightarrow> any \<Rightarrow> world \<Rightarrow> world" where
  "writePlainAny rt wr level0 val w =
     (let level = (if withColor w then wrapLevelWithColor rt level0 else level0) in
      case val of
        StringVal v \<Rightarrow> writePlainText rt wr level v w
      | OtherVal (Some e) s j \<Rightarrow> writePlainText rt wr level e w
      | OtherVal None (Some s) j \<Rightarrow> writePlainText rt wr level s w
      | OtherVal None None j \<Rightarrow> writePlainValue rt wr level val w)"

text \<open>
  The \<^verbatim>\<open>map[string]interface{}\<close> that \<^verbatim>\<open>output\<close> fills, as the list of its keys and
  values; \<open>assign\<close> is \<^verbatim>\<open>entry[k] = v\<close>. \<^verbatim>\<open>json.Marshal\<close> writes the members of a map
  sorted by key, bytewise.
\<close>

type_synonym entry = "(string \<times> any) list"

fun assign :: "string \<Rightarrow> any \<Rightarrow> entry \<Rightarrow> entry" where
  "assign k v [] = [(k, v)]"
| "assign k v ((k', v') # m) = (if k = k' then (k, v) # m else (k', v') # assign k v m)"

fun bytes_less :: "bytes \<Rightarrow> bytes \<Rightarrow> bool" where
  "bytes_less [] [] = False"
| "bytes_less [] (y # ys) = True"
| "bytes_less (x # xs) [] = False"
| "bytes_less (x # xs) (y # ys) = (if x = y then bytes_less xs ys else byte x < byte y)"

fun insert_member :: "string \<times> any \<Rightarrow> entry \<Rightarrow> entry" where
  "insert_member kv [] = [kv]"
| "insert_member kv (kv' # m) =
     (if bytes_less (fst kv') (fst kv) then kv' # insert_member kv m else kv # kv' # m)"

definition sorted_members :: "entry \<Rightarrow> entry" where
  "sorted_members m = foldr insert_member m []"

fun Marshal_members :: "entry \<Rightarrow> error + bytes" where
  "Marshal_members [] = Inr []"
| "Marshal_members ((k, v) # m) =
     (case Marshal v of
        Inl err \<Rightarrow> Inl err
      | Inr text \<Rightarrow>
          (case Marshal_members m of
             Inl err \<Rightarrow> Inl err
           | Inr others \<Rightarrow>
               Inr (appendString k @ '':'' @ text @ (if m = [] then [] else '','' @ others))))"

definition Marshal_map :: "entry \<Rightarrow> error + bytes" where
  "Marshal_map m =
     (case Marshal_members (sorted_members m) of
        Inl err \<Rightarrow> Inl err
      | Inr body \<Rightarrow> Inr (''{'' @ body @ ''}''))"

definition writeJson :: "runtime \<Rightarrow> io_Writer option \<Rightarrow> entry \<Rightarrow> world \<Rightarrow> world" where
  "writeJson rt wr info w =
     (case Marshal_map info of
        Inl err \<Rightarrow> log_Println (Error_text err) w
      | Inr content \<Rightarrow>
          (case wr of
             None \<Rightarrow> log_Println content w
           | Some x \<Rightarrow> snd (io_Write rt x (content @ [newline]) w)))"

text \<open>\<^verbatim>\<open>output\<close> (\<open>output\<close> is a keyword here).\<close>

definition output_fn :: "runtime \<Rightarrow> io_Writer option \<Rightarrow> string \<Rightarrow> any \<Rightarrow> world \<Rightarrow> world" where
  "output_fn rt wr level val w =
     (if encoding w = plainEncodingType then writePlainAny rt wr level val w
      else
        writeJson rt wr
          (assign callerKey (StringVal (getCaller rt callerDepth))
            (assign contentKey val
              (assign levelKey (StringVal level)
                (assign timestampKey (StringVal (getTimestamp rt w)) []))))
          w)"

section \<open>Levels, the active writer and the logging calls (logs.go)\<close>

text \<open>The methods of \<^verbatim>\<open>atomicWriter\<close>; the lock makes each of them one step.\<close>

definition Load_writer :: "world \<Rightarrow> Writer option" where
  "Load_writer w = writer w"

definition Store :: "Writer option \<Rightarrow> world \<Rightarrow> world" where
  "Store v w = w\<lparr>writer := v\<rparr>"

definition StoreIfNil :: "Writer option \<Rightarrow> world \<Rightarrow> Writer option \<times> world" where
  "StoreIfNil v w =
     (let w1 = (if writer w = None then w\<lparr>writer := v\<rparr> else w) in (writer w1, w1))"

definition Swap :: "Writer option \<Rightarrow> world \<Rightarrow> Writer option \<times> world" where
  "Swap v w = (writer w, w\<lparr>writer := v\<rparr>)"

text \<open>The methods of \<^verbatim>\<open>defaultWriter\<close>.\<close>

definition Writer_Close :: "runtime \<Rightarrow> Writer \<Rightarrow> world \<Rightarrow> error option \<times> world" where
  "Writer_Close rt x w = io_Close rt (lw x) w"

definition Writer_Error :: "runtime \<Rightarrow> Writer \<Rightarrow> any \<Rightarrow> world \<Rightarrow> world" where
  "Writer_Error rt x v w = output_fn rt (Some (lw x)) levelError v w"

definition Writer_Info :: "runtime \<Rightarrow> Writer \<Rightarrow> any \<Rightarrow> world \<Rightarrow> world" where
  "Writer_Info rt x v w = output_fn rt (Some (lw x)) levelInfo v w"

definition newConsoleWriter :: "world \<Rightarrow> Writer \<times> world" where
  "newConsoleWriter w = (defaultWriter (logWriter (created w)), w\<lparr>created := created w + 1\<rparr>)"

definition SetWriter :: "Writer option \<Rightarrow> world \<Rightarrow> world" where
  "SetWriter v w = Store v w"

definition SetLevel :: "32 word \<Rightarrow> world \<Rightarrow> world" where
  "SetLevel level w = w\<lparr>logLevel := level\<rparr>"

definition shallLog :: "32 word \<Rightarrow> world \<Rightarrow> bool" where
  "shallLog level w = (logLevel w \<le> level)"

definition setupLogLevel :: "LogConf \<Rightarrow> world \<Rightarrow> world" where
  "setupLogLevel c w =
     (if Level c = levelInfo then SetLevel InfoLevel w
      else if Level c = levelError then SetLevel ErrorLevel w
      else w)"

text \<open>\<^verbatim>\<open>setupPath\<close> assigns to its own copy of the configuration.\<close>

definition setupPath :: "LogConf \<Rightarrow> world \<Rightarrow> world" where
  "setupPath c w = w"

definition setupTimeFormat :: "LogConf \<Rightarrow> world \<Rightarrow> world" where
  "setupTimeFormat c w = (if 0 < length (TimeFormat c) then w\<lparr>timeFormat := TimeFormat c\<rparr> else w)"

definition setupPlainEncodingSep :: "LogConf \<Rightarrow> world \<Rightarrow> world" where
  "setupPlainEncodingSep c w =
     (if 0 < length (PlainEncodingSep c) then w\<lparr>plainEncodingSep := PlainEncodingSep c\<rparr> else w)"

definition setupWithColor :: "LogConf \<Rightarrow> world \<Rightarrow> world" where
  "setupWithColor c w = (if WithColor c then w\<lparr>withColor := WithColor c\<rparr> else w)"

definition setupEncoding :: "LogConf \<Rightarrow> world \<Rightarrow> world" where
  "setupEncoding c w =
     (if Encoding c = plainEncoding then w\<lparr>encoding := plainEncodingType\<rparr>
      else w\<lparr>encoding := jsonEncodingType\<rparr>)"

text \<open>
  \<^verbatim>\<open>createOutput\<close> is \<^verbatim>\<open>NewLogger\<close>: it fails as the sink's \<open>NewLogger\<close> fails in the
  file system of the environment, and makes a new \<^verbatim>\<open>io.WriteCloser\<close> otherwise.
\<close>

definition createOutput :: "runtime \<Rightarrow> string \<Rightarrow> world \<Rightarrow> (error + io_Writer) \<times> world" where
  "createOutput rt p w =
     (case NewLogger (os rt) p of
        Inl err \<Rightarrow> (Inl err, w)
      | Inr l \<Rightarrow> (Inr (fileLogger (created w) (filename l)), w\<lparr>created := created w + 1\<rparr>))"

definition newFileWriter :: "runtime \<Rightarrow> LogConf \<Rightarrow> string \<Rightarrow> world \<Rightarrow> (error + Writer) \<times> world" where
  "newFileWriter rt c0 name w =
     (let c = (if length (Path c0) = 0 then c0\<lparr>Path := ''logs''\<rparr> else c0);
          filePath = path_Join rt (Path c) name @ ''.log'';
          w1 = setupLogLevel c w
      in case createOutput rt filePath w1 of
           (Inl err, w2) \<Rightarrow> (Inl err, w2)
         | (Inr x, w2) \<Rightarrow> (Inr (defaultWriter x), w2))"

definition setupWithConsole :: "world \<Rightarrow> world" where
  "setupWithConsole w = (case newConsoleWriter w of (x, w1) \<Rightarrow> SetWriter (Some x) w1)"

definition setupWithFiles :: "runtime \<Rightarrow> LogConf \<Rightarrow> world \<Rightarrow> error option \<times> world" where
  "setupWithFiles rt c w =
     (case newFileWriter rt c ''logx'' w of
        (Inl err, w1) \<Rightarrow> (Some err, w1)
      | (Inr x, w1) \<Rightarrow> (None, SetWriter (Some x) w1))"

definition setupWriter :: "runtime \<Rightarrow> LogConf \<Rightarrow> world \<Rightarrow> error option \<times> world" where
  "setupWriter rt c w =
     (if Mode c = fileMode then setupWithFiles rt c w else (None, setupWithConsole w))"

text \<open>
  \<^verbatim>\<open>Load\<close>. The body runs under \<^verbatim>\<open>setupOnce.Do\<close>; a call that finds the once fired
  returns its named result as it was initialised, nil.
\<close>

definition Load :: "runtime \<Rightarrow> LogConf \<Rightarrow> world \<Rightarrow> error option \<times> world" where
  "Load rt c w =
     (if setupOnce w then (None, w)
      else
        setupWriter rt c
          (setupEncoding c
            (setupWithColor c
              (setupPlainEncodingSep c
                (setupTimeFormat c
                  (setupPath c
                    (setupLogLevel c
                      (w\<lparr>setupOnce := True, conf := Some c\<rparr>))))))))"

text \<open>\<^verbatim>\<open>Load\<close> called several times in a row; the results in call order.\<close>

fun Load_calls :: "runtime \<Rightarrow> LogConf list \<Rightarrow> world \<Rightarrow> error option list \<times> world" where
  "Load_calls rt [] w = ([], w)"
| "Load_calls rt (c # cs) w =
     (case Load rt c w of
        (err, w1) \<Rightarrow> (case Load_calls rt cs w1 of (errs, w2) \<Rightarrow> (err # errs, w2)))"

text \<open>
  \<^verbatim>\<open>getWriter\<close>. The result is an interface value, which the type lets be nil.
\<close>

definition getWriter :: "world \<Rightarrow> Writer option \<times> world" where
  "getWriter w =
     (case Load_writer w of
        Some x \<Rightarrow> (Some x, w)
      | None \<Rightarrow> (case newConsoleWriter w of (x, w1) \<Rightarrow> StoreIfNil (Some x) w1))"

text \<open>
  \<^verbatim>\<open>errorTextSync\<close> and \<^verbatim>\<open>infoTextSync\<close>. A method call on a nil \<^verbatim>\<open>Writer\<close> panics; that
  is the result \<open>None\<close>.
\<close>

definition errorTextSync :: "runtime \<Rightarrow> Writer option \<Rightarrow> string \<Rightarrow> world \<Rightarrow> world option" where
  "errorTextSync rt x msg w =
     (if shallLog ErrorLevel w then
        (case x of
           None \<Rightarrow> None
         | Some wr \<Rightarrow> Some (Writer_Error rt wr (StringVal (msg @ [newline] @ debug_Stack rt)) w))
      else Some w)"

definition infoTextSync :: "runtime \<Rightarrow> Writer option \<Rightarrow> string \<Rightarrow> world \<Rightarrow> world option" where
  "infoTextSync rt x msg w =
     (if shallLog InfoLevel w then
        (case x of
           None \<Rightarrow> None
         | Some wr \<Rightarrow> Some (Writer_Info rt wr (StringVal msg) w))
      else Some w)"

text \<open>The package-level logging calls and \<^verbatim>\<open>Close\<close>.\<close>

definition Error :: "runtime \<Rightarrow> any list \<Rightarrow> world \<Rightarrow> world option" where
  "Error rt v w = (case getWriter w of (x, w1) \<Rightarrow> errorTextSync rt x (fmt_Sprint rt v) w1)"

definition Errorf :: "runtime \<Rightarrow> string \<Rightarrow> any list \<Rightarrow> world \<Rightarrow> world option" where
  "Errorf rt format v w =
     (case getWriter w of (x, w1) \<Rightarrow> errorTextSync rt x (fmt_Errorf rt format v) w1)"

definition Info :: "runtime \<Rightarrow> any list \<Rightarrow> world \<Rightarrow> world option" where
  "Info rt v w = (case getWriter w of (x, w1) \<Rightarrow> infoTextSync rt x (fmt_Sprint rt v) w1)"

definition Infof :: "runtime \<Rightarrow> string \<Rightarrow> any list \<Rightarrow> world \<Rightarrow> world option" where
  "Infof rt format v w =
     (case getWriter w of (x, w1) \<Rightarrow> infoTextSync rt x (fmt_Sprintf rt format v) w1)"

definition logx_Close :: "runtime \<Rightarrow> world \<Rightarrow> error option \<times> world" where
  "logx_Close rt w =
     (case Swap None w of
        (Some x, w1) \<Rightarrow> Writer_Close rt x w1
      | (None, w1) \<Rightarrow> (None, w1))"

text \<open>The package-level variables as the program starts, with nothing done yet.\<close>

definition initial :: world where
  "initial = \<lparr>setupOnce = False, logLevel = 0, encoding = jsonEncodingType, withColor = False,
               plainEncodingSep = [CHR 0x09], timeFormat = ''2006-01-02T15:04:05.000Z07:00'',
               writer = None,
               conf = Some \<lparr>Mode = [], Encoding = [], PlainEncodingSep = [], WithColor = False,
                            TimeFormat = [], Path = [], Level = []\<rparr>,
               created = 0, written = [], closed = [], stdlog = []\<rparr>"

section \<open>The statements of the specification, and concrete inputs\<close>

text \<open>
  The level as plain mode prints it: wrapped in its colour when colour is on.
\<close>

definition shown_level :: "runtime \<Rightarrow> world \<Rightarrow> string \<Rightarrow> string" where
  "shown_level rt w level = (if withColor w then wrapLevelWithColor rt level else level)"

text \<open>
  The wire format of plain mode in the specification's words:
  \<^verbatim>\<open><timestamp><sep><level><sep><message><sep>caller=<file:line>\n\<close>.
\<close>

definition plain_line :: "runtime \<Rightarrow> world \<Rightarrow> string \<Rightarrow> string \<Rightarrow> bytes" where
  "plain_line rt w level msg =
     getTimestamp rt w @ plainEncodingSep w @ level @ plainEncodingSep w @ msg
       @ plainEncodingSep w @ ''caller='' @ getCaller rt callerDepth @ [newline]"

text \<open>
  The message by the specification's chain: the \<^verbatim>\<open>String()\<close> form of a stringifiable
  value first, else an error's message, else the value's own string, else its JSON
  serialization.
\<close>

definition spec_message :: "any \<Rightarrow> error + string" where
  "spec_message v =
     (case v of
        StringVal s \<Rightarrow> Inr s
      | OtherVal e (Some s) j \<Rightarrow> Inr s
      | OtherVal (Some e) None j \<Rightarrow> Inr e
      | OtherVal None None j \<Rightarrow> j)"

text \<open>
  The message by the order of the source's type switch: a string's own value, else an
  error's message, else the \<^verbatim>\<open>String()\<close> form, else what \<^verbatim>\<open>Encoder.Encode\<close> writes
  for the value, which is its JSON text and a newline.
\<close>

definition switch_message :: "any \<Rightarrow> error + string" where
  "switch_message v =
     (case v of
        StringVal s \<Rightarrow> Inr s
      | OtherVal (Some e) s j \<Rightarrow> Inr e
      | OtherVal None (Some s) j \<Rightarrow> Inr s
      | OtherVal None None j \<Rightarrow> (case j of Inl err \<Rightarrow> Inl err | Inr t \<Rightarrow> Inr (t @ [newline])))"

text \<open>Whether the type switch takes one of its first three cases.\<close>

definition has_text :: "any \<Rightarrow> bool" where
  "has_text v =
     (case v of
        StringVal s \<Rightarrow> True
      | OtherVal (Some e) s j \<Rightarrow> True
      | OtherVal None (Some s) j \<Rightarrow> True
      | OtherVal None None j \<Rightarrow> False)"

text \<open>
  A runtime for concrete runs: a fixed clock, a fixed calling frame, \<^verbatim>\<open>fmt\<close> functions
  that print the first string among their arguments, writers that never fail, and the
  quiet file system.
\<close>

fun first_string :: "any list \<Rightarrow> string" where
  "first_string [] = []"
| "first_string (StringVal s # vs) = s"
| "first_string (OtherVal e s j # vs) = first_string vs"

definition example_runtime :: runtime where
  "example_runtime =
     \<lparr>time_Now_Format = (\<lambda>layout. ''2024-05-06T07:08:09.000Z''),
      runtime_Caller = (\<lambda>depth. Some (''/home/me/app/cmd/main.go'', 42)),
      debug_Stack = ''goroutine 1 [running]'',
      fmt_Sprint = first_string,
      fmt_Sprintf = (\<lambda>format. first_string),
      fmt_Errorf = (\<lambda>format. first_string),
      path_Join = (\<lambda>dir name. dir @ ''/'' @ name),
      WithColorPadding = (\<lambda>level colour. '' '' @ level @ '' ''),
      Write_result = (\<lambda>x. None),
      Close_result = (\<lambda>x. None),
      os = quiet_env\<rparr>"

text \<open>
  The scenario of the specification: plain encoding, separator \<open>|\<close>, no colour.
\<close>

definition plain_world :: world where
  "plain_world = initial\<lparr>encoding := plainEncodingType, plainEncodingSep := ''|''\<rparr>"

text \<open>A value that is both an \<^verbatim>\<open>error\<close> and a \<^verbatim>\<open>fmt.Stringer\<close>.\<close>

definition error_and_stringer :: any where
  "error_and_stringer = OtherVal (Some ''disk full'') (Some ''DiskError(28)'') (Inr ''{}'')"

text \<open>A channel: \<^verbatim>\<open>encoding/json\<close> has no encoding for it.\<close>

definition a_channel :: any where
  "a_channel = OtherVal None None (Inl (OtherError ''json: unsupported type: chan int''))"

text \<open>
  The scenario of the tests: the first configuration asks for the error level, the second
  for the info level.
\<close>

definition conf_error :: LogConf where
  "conf_error = \<lparr>Mode = ''console'', Encoding = ''json'', PlainEncodingSep = [], WithColor = False,
                  TimeFormat = [], Path = ''/dev/null'', Level = ''error''\<rparr>"

definition conf_info :: LogConf where
  "conf_info = conf_error\<lparr>Level := ''info'', Encoding := ''plain''\<rparr>"

text \<open>
  The wire format of JSON mode in the specification's words: one object with the keys
  \<open>@timestamp\<close>, \<open>level\<close>, \<open>content\<close> and \<open>caller\<close>. \<^verbatim>\<open>encoding/json\<close> writes the
  members of a map sorted by key.
\<close>

definition json_object :: "string \<Rightarrow> string \<Rightarrow> bytes \<Rightarrow> string \<Rightarrow> bytes" where
  "json_object ts level content caller =
     ''{'' @ appendString ''@timestamp'' @ '':'' @ appendString ts @ '','' @
       appendString ''caller'' @ '':'' @ appendString caller @ '','' @
       appendString ''content'' @ '':'' @ content @ '','' @
       appendString ''level'' @ '':'' @ appendString level @ ''}''"

text \<open>
  The file that a configuration in file mode logs to: \<^verbatim>\<open>logx.log\<close> in the directory
  of the configuration, \<^verbatim>\<open>logs\<close> when it names none.
\<close>

definition log_file :: "runtime \<Rightarrow> LogConf \<Rightarrow> string" where
  "log_file rt c = path_Join rt (if Path c = [] then ''logs'' else Path c) ''logx'' @ ''.log''"

text \<open>
  More configurations: one in file mode, and one whose level is Go's zero value, the
  empty string. And a file system in which no file can be created.
\<close>

definition conf_file :: LogConf where
  "conf_file = conf_error\<lparr>Mode := ''file'', Path := ''/var/log/app''\<rparr>"

definition conf_no_level :: LogConf where
  "conf_no_level = conf_error\<lparr>Level := []\<rparr>"

definition read_only_runtime :: runtime where
  "read_only_runtime =
     example_runtime\<lparr>os := quiet_env\<lparr>create_err := (\<lambda>p. Some (OtherError ''permission denied''))\<rparr>\<rparr>"

section \<open>Properties of the sink\<close>

subsection \<open>The worker after the done signal\<close>

lemma drained_0: "drained 0 l = l\<lparr>waitGroup := waitGroup l - 1\<rparr>"
  by (cases l) (simp add: drained_def option.map_id)

lemma worker_loop_after_done:
  "done_ch l \<Longrightarrow>
     worker_loop picks l =
       Some (drained (taken_after_done picks l) l)"
  unfolding taken_after_done_def
proof (induction picks arbitrary: l)
  case Nil
  then show ?case
    by (cases "channel l")
       (simp_all add: worker_loop.simps [where l = l] worker_step_def drained_0)
next
  case (Cons p ps)
  show ?case
  proof (cases "channel l")
    case Nil
    with Cons.prems show ?thesis
      by (simp add: worker_loop.simps [where l = l] worker_step_def drained_0)
  next
    case (Cons event rest)
    note ch = this
    show ?thesis
    proof (cases p)
      case DoneCase
      with ch Cons.prems show ?thesis
        by (simp add: worker_loop.simps [where l = l] worker_step_def drained_0)
    next
      case ChanCase
      let ?l1 = "logger_write event (l\<lparr>channel := rest\<rparr>)"
      have d: "done_ch ?l1" and c: "channel ?l1 = rest"
        using Cons.prems by (simp_all add: logger_write_def split: option.splits)
      have "worker_loop (p # ps) l = worker_loop ps ?l1"
        using ch ChanCase Cons.prems
        by (simp add: worker_loop.simps [where l = l] worker_step_def)
      also have "\<dots> = Some (drained (min (length (takeWhile (\<lambda>p. p = ChanCase) ps)) (length rest)) ?l1)"
        using Cons.IH [OF d] c by simp
      also have "drained (min (length (takeWhile (\<lambda>p. p = ChanCase) ps)) (length rest)) ?l1 =
                 drained (min (length (takeWhile (\<lambda>p. p = ChanCase) (p # ps))) (length (channel l))) l"
        using ch ChanCase
        by (cases "fp l") (simp_all add: drained_def logger_write_def)
      finally show ?thesis .
    qed
  qed
qed

lemma fold_File_Write_calls:
  "sync_calls (fold File_Write vs f) = sync_calls f \<and>
   close_calls (fold File_Write vs f) = close_calls f \<and>
   sync_err (fold File_Write vs f) = sync_err f \<and>
   close_err (fold File_Write vs f) = close_err f"
  by (induction vs arbitrary: f) (simp_all add: File_Write_def)

lemma fold_File_Write_contents:
  "close_calls f = 0 \<Longrightarrow> contents (fold File_Write vs f) = contents f @ concat vs"
  by (induction vs arbitrary: f) (simp_all add: File_Write_def)

lemma waitGroup_Wait_after_done:
  "done_ch l \<Longrightarrow>
     waitGroup_Wait picks l =
       Some (if waitGroup l = 0 then l else drained (taken_after_done picks l) l)"
  by (simp add: waitGroup_Wait_def worker_loop_after_done)

lemma Close_after_first: "closeOnce l \<Longrightarrow> Close picks l = Some (None, l)"
  by (simp add: Close_def)

lemma Close_calls_after_first:
  "closeOnce l \<Longrightarrow> Close_calls pss l = Some (replicate (length pss) None, l)"
  by (induction pss) (simp_all add: Close_after_first)

lemma Close_first:
  assumes "\<not> closeOnce l" and "fp l = Some f"
  shows "\<exists>l1 f1. Close picks l =
            Some ((case sync_err f of Some e \<Rightarrow> Some e | None \<Rightarrow> close_err f), l1) \<and>
          closeOnce l1 \<and> done_ch l1 \<and> fp l1 = Some f1 \<and>
          sync_calls f1 = sync_calls f + 1 \<and>
          close_calls f1 = close_calls f + (case sync_err f of None \<Rightarrow> 1 | Some e \<Rightarrow> 0) \<and>
          waitGroup l1 = waitGroup l - 1"
proof -
  let ?l0 = "l\<lparr>closeOnce := True, done_ch := True\<rparr>"
  define k where "k = taken_after_done picks ?l0"
  have w: "waitGroup_Wait picks ?l0 = Some (if waitGroup ?l0 = 0 then ?l0 else drained k ?l0)"
    using waitGroup_Wait_after_done [of ?l0 picks] by (simp add: k_def)
  define l' where "l' = (if waitGroup ?l0 = 0 then ?l0 else drained k ?l0)"
  define f' where "f' = (if waitGroup ?l0 = 0 then f else fold File_Write (take k (channel l)) f)"
  have p: "fp l' = Some f'" "closeOnce l'" "done_ch l'" "waitGroup l' = waitGroup l - 1"
    using assms by (auto simp: l'_def f'_def drained_def)
  have m: "sync_calls f' = sync_calls f" "close_calls f' = close_calls f"
    "sync_err f' = sync_err f" "close_err f' = close_err f"
    by (simp_all add: f'_def fold_File_Write_calls)
  show ?thesis
    using assms(1) w p m unfolding l'_def [symmetric]
    by (cases "sync_err f") (simp_all add: Close_def File_Sync_def File_Close_def)
qed

subsection \<open>Concrete runs\<close>

lemma NewLogger_quiet_env: "NewLogger quiet_env ''logs/app.log'' = Inr open_sink"
  by (simp add: NewLogger_def init_def startWorker_def quiet_env_def open_sink_def)

lemma NewLogger_sync_fails_env:
  "NewLogger sync_fails_env ''logs/app.log'' = Inr open_sink_sync_fails"
  by (simp add: NewLogger_def init_def startWorker_def quiet_env_def sync_fails_env_def
      open_sink_def open_sink_sync_fails_def)

lemma Close_open_sink:
  "Close [] open_sink =
     Some (None, open_sink\<lparr>fp := Some (new_handle\<lparr>sync_calls := 1, close_calls := 1\<rparr>),
                           done_ch := True, waitGroup := 0, closeOnce := True\<rparr>)"
  by (simp add: Close_def waitGroup_Wait_def worker_loop.simps worker_step_def open_sink_def
      new_handle_def File_Sync_def File_Close_def)

subsection \<open>The result of \<^verbatim>\<open>Write\<close>\<close>

text \<open>
  C10. A \<^verbatim>\<open>Write(d)\<close> that returns has taken one of two ways. Either it has put \<open>d\<close> at
  the end of the queue and returns \<open>(len(d), nil)\<close>, with the file untouched; or it has
  printed \<open>d\<close> on the standard log and returns \<open>(0, ErrLogFileClosed)\<close>, with the sink
  untouched. The count is never a length in between.
\<close>

theorem Write_count:
  assumes "Write pick d (l, logged) = Some ((n, err), l', logged')"
  shows "(err = None \<and> n = length d \<and> l' = l\<lparr>channel := channel l @ [d]\<rparr> \<and>
            fp l' = fp l \<and> logged' = logged) \<or>
         (err = Some ErrLogFileClosed \<and> n = 0 \<and> l' = l \<and> logged' = logged @ [d])"
  using assms by (auto simp: Write_def Let_def split: if_splits select_case.splits)

theorem Write_count_witness:
  "Write ChanCase ''ab'' (open_sink, []) =
     Some ((2, None), open_sink\<lparr>channel := [''ab'']\<rparr>, []) \<and>
   fp (open_sink\<lparr>channel := [''ab'']\<rparr>) = fp open_sink"
proof -
  have h: "Write ChanCase ''ab'' (open_sink, []) =
             Some ((2, None), open_sink\<lparr>channel := [''ab'']\<rparr>, [])"
    by (simp add: Write_def Let_def open_sink_def bufferSize_def)
  show ?thesis using h Write_count [OF h] by simp
qed

lemma Write_DoneCase_after_done:
  "done_ch l \<Longrightarrow> Write DoneCase d (l, logged) = Some ((0, Some ErrLogFileClosed), l, logged @ [d])"
  by (simp add: Write_def Let_def)

lemma Write_full_after_done:
  "done_ch l \<Longrightarrow> bufferSize \<le> length (channel l) \<Longrightarrow>
     Write pick d (l, logged) = Some ((0, Some ErrLogFileClosed), l, logged @ [d])"
  by (simp add: Write_def Let_def)

lemma Write_ChanCase_after_done:
  "done_ch l \<Longrightarrow> length (channel l) < bufferSize \<Longrightarrow>
     Write ChanCase d (l, logged) = Some ((length d, None), l\<lparr>channel := channel l @ [d]\<rparr>, logged)"
  by (simp add: Write_def Let_def)

text \<open>
  C1. \<^verbatim>\<open>NewLogger\<close>, then \<^verbatim>\<open>Close()\<close>, which returns nil, then \<^verbatim>\<open>Write("late")\<close>. The
  queue has room and \<^verbatim>\<open>done\<close> is closed, so both cases of the select are ready; when
  the runtime takes the send, the call returns \<open>(4, nil)\<close>, the bytes sit in the queue of
  a sink whose worker has returned, and nothing reaches the standard log.
\<close>

theorem Write_after_Close_enqueues:
  "(case NewLogger quiet_env ''logs/app.log'' of
      Inl e \<Rightarrow> False
    | Inr l0 \<Rightarrow>
        (case Close [] l0 of
           None \<Rightarrow> False
         | Some (e, l1) \<Rightarrow>
             e = None \<and> waitGroup l1 = 0 \<and>
             Write ChanCase ''late'' (l1, []) =
               Some ((4, None), l1\<lparr>channel := [''late'']\<rparr>, [])))"
proof -
  have "Write ChanCase ''late''
          (open_sink\<lparr>fp := Some (new_handle\<lparr>sync_calls := 1, close_calls := 1\<rparr>),
                     done_ch := True, waitGroup := 0, closeOnce := True\<rparr>, []) =
        Some ((4, None),
              open_sink\<lparr>fp := Some (new_handle\<lparr>sync_calls := 1, close_calls := 1\<rparr>),
                        done_ch := True, waitGroup := 0, closeOnce := True,
                        channel := [''late'']\<rparr>, [])"
    by (simp add: Write_def Let_def bufferSize_def open_sink_def)
  then show ?thesis
    by (simp add: NewLogger_quiet_env Close_open_sink)
qed

subsection \<open>\<^verbatim>\<open>Close\<close> and the queue\<close>

text \<open>
  C2. \<^verbatim>\<open>NewLogger\<close>, then \<^verbatim>\<open>Write("rec")\<close> on the open sink, which returns \<open>(3, nil)\<close>,
  then \<^verbatim>\<open>Close()\<close> before the worker has run. The worker finds both cases of its select
  ready; when the runtime takes the done case it returns, and \<^verbatim>\<open>Close\<close> syncs and
  closes a file that holds nothing, while the record is still in the queue.
\<close>

theorem Close_leaves_queue_unwritten:
  "(case NewLogger quiet_env ''logs/app.log'' of
      Inl e \<Rightarrow> False
    | Inr l0 \<Rightarrow>
        (case Write ChanCase ''rec'' (l0, []) of
           None \<Rightarrow> False
         | Some (r, l1, logged) \<Rightarrow>
             r = (3, None) \<and>
             (case Close [] l1 of
                None \<Rightarrow> False
              | Some (e, l2) \<Rightarrow>
                  e = None \<and> waitGroup l2 = 0 \<and> channel l2 = [''rec''] \<and>
                  map_option contents (fp l2) = Some [] \<and>
                  map_option close_calls (fp l2) = Some 1)))"
  by (simp add: NewLogger_quiet_env Write_def Let_def bufferSize_def open_sink_def Close_def
      waitGroup_Wait_def worker_loop.simps worker_step_def new_handle_def File_Sync_def
      File_Close_def)

text \<open>
  What the worker does write: with \<^verbatim>\<open>done\<close> closed it takes the items the runtime's
  choices give it, oldest first, and \<^verbatim>\<open>Close\<close> returns with exactly those in the file.
\<close>

lemma Close_contents:
  assumes "\<not> closeOnce l" and "fp l = Some f" and "close_calls f = 0" and "0 < waitGroup l"
  shows "\<exists>e l1. Close picks l = Some (e, l1) \<and>
           map_option contents (fp l1) =
             Some (contents f @ concat (take (taken_after_done picks l) (channel l))) \<and>
           channel l1 = drop (taken_after_done picks l) (channel l)"
proof -
  let ?l0 = "l\<lparr>closeOnce := True, done_ch := True\<rparr>"
  have w: "waitGroup_Wait picks ?l0 = Some (drained (taken_after_done picks l) ?l0)"
    using assms(4) waitGroup_Wait_after_done [of ?l0 picks]
    by (simp add: taken_after_done_def)
  show ?thesis
    using assms(1,2,3) w
    by (cases "sync_err f")
       (simp_all add: Close_def drained_def File_Sync_def File_Close_def
         fold_File_Write_contents fold_File_Write_calls)
qed

subsection \<open>\<^verbatim>\<open>Close\<close> called more than once\<close>

text \<open>
  C3, as stated, fails: on a sink whose \<^verbatim>\<open>Sync\<close> fails the first \<^verbatim>\<open>Close()\<close> returns
  the error and the second returns nil, so the calls do not all return the same result.
\<close>

theorem Close_results_differ:
  "(case NewLogger sync_fails_env ''logs/app.log'' of
      Inl e \<Rightarrow> False
    | Inr l0 \<Rightarrow>
        (case Close_calls [[], []] l0 of
           None \<Rightarrow> False
         | Some (errs, l2) \<Rightarrow>
             errs = [Some (OtherError ''input/output error''), None] \<and> errs ! 0 \<noteq> errs ! 1))"
  by (simp add: NewLogger_sync_fails_env Close_def waitGroup_Wait_def worker_loop.simps
      worker_step_def open_sink_sync_fails_def open_sink_def new_handle_def File_Sync_def)

text \<open>
  C3, amended. Of \<open>N \<ge> 1\<close> calls of \<^verbatim>\<open>Close()\<close> on a sink that has not been closed, the
  first runs the body once: it closes \<^verbatim>\<open>done\<close>, waits for the worker, calls \<^verbatim>\<open>Sync\<close>
  once and, when that succeeded, the file's \<^verbatim>\<open>Close\<close> once, and returns the error of
  \<^verbatim>\<open>Sync\<close> or else of the file's \<^verbatim>\<open>Close\<close>. Every later call returns nil and leaves the
  sink as it is.
\<close>

theorem Close_once:
  assumes "\<not> closeOnce l" and "fp l = Some f"
  shows "\<exists>l1 f1.
           Close picks l = Some ((case sync_err f of Some e \<Rightarrow> Some e | None \<Rightarrow> close_err f), l1) \<and>
           Close_calls rest l1 = Some (replicate (length rest) None, l1) \<and>
           Close_calls (picks # rest) l =
             Some ((case sync_err f of Some e \<Rightarrow> Some e | None \<Rightarrow> close_err f)
                     # replicate (length rest) None, l1) \<and>
           closeOnce l1 \<and> done_ch l1 \<and> waitGroup l1 = waitGroup l - 1 \<and> fp l1 = Some f1 \<and>
           sync_calls f1 = sync_calls f + 1 \<and>
           close_calls f1 = close_calls f + (case sync_err f of None \<Rightarrow> 1 | Some e \<Rightarrow> 0)"
proof -
  from Close_first [OF assms, of picks] obtain l1 f1 where
    c: "Close picks l = Some ((case sync_err f of Some e \<Rightarrow> Some e | None \<Rightarrow> close_err f), l1)"
    and p: "closeOnce l1" "done_ch l1" "fp l1 = Some f1" "sync_calls f1 = sync_calls f + 1"
      "close_calls f1 = close_calls f + (case sync_err f of None \<Rightarrow> 1 | Some e \<Rightarrow> 0)"
      "waitGroup l1 = waitGroup l - 1"
    by blast
  have r: "Close_calls rest l1 = Some (replicate (length rest) None, l1)"
    using p(1) by (rule Close_calls_after_first)
  show ?thesis using c r p by simp
qed

theorem Close_once_witness:
  "\<not> closeOnce open_sink_sync_fails \<and>
   fp open_sink_sync_fails = Some (new_handle\<lparr>sync_err := Some (OtherError ''input/output error'')\<rparr>) \<and>
   (\<exists>l1 f1. Close_calls [[], [], []] open_sink_sync_fails =
              Some ([Some (OtherError ''input/output error''), None, None], l1) \<and>
            closeOnce l1 \<and> fp l1 = Some f1 \<and> sync_calls f1 = 1 \<and> close_calls f1 = 0)"
proof -
  have h1: "\<not> closeOnce open_sink_sync_fails"
    by (simp add: open_sink_sync_fails_def open_sink_def)
  have h2: "fp open_sink_sync_fails =
              Some (new_handle\<lparr>sync_err := Some (OtherError ''input/output error'')\<rparr>)"
    by (simp add: open_sink_sync_fails_def)
  show ?thesis
    using h1 h2 Close_once [OF h1 h2, of "[]" "[[], []]"]
    by (auto simp: new_handle_def)
qed

section \<open>Properties of the plain encoder\<close>

lemma digits_42: "itoa 42 = ''42''"
  by (simp add: itoa_def digits.simps char_of_eq_iff)

lemma example_caller: "getCaller example_runtime callerDepth = ''cmd/main.go:42''"
  by (simp add: getCaller_def example_runtime_def prettyCaller_def digits_42)

lemma written_writePlainText:
  "written (writePlainText rt (Some x) level msg w) = written w @ [(x, plain_line rt w level msg)]"
  by (simp add: writePlainText_def plain_line_def io_Write_def log_Println_def callerKey_def
      getTimestamp_def Let_def split: option.splits)

lemma written_writePlainValue:
  "written (writePlainValue rt (Some x) level v w) =
     written w @ (case Marshal v of
                    Inl err \<Rightarrow> []
                  | Inr t \<Rightarrow> [(x, plain_line rt w level (t @ [newline]))])"
  by (simp add: writePlainValue_def plain_line_def io_Write_def log_Println_def callerKey_def
      getTimestamp_def Let_def split: option.splits sum.splits)

text \<open>
  C4, as stated, fails: for a value that is both an error and a Stringer the line carries
  the \<^verbatim>\<open>Error()\<close> message, not the \<^verbatim>\<open>String()\<close> form that the chain of the claim
  chooses.
\<close>

theorem error_wins_over_Stringer:
  "spec_message error_and_stringer = Inr ''DiskError(28)'' \<and>
   written (writePlainAny example_runtime (Some (logWriter 0)) levelInfo error_and_stringer plain_world) =
     [(logWriter 0, ''2024-05-06T07:08:09.000Z|info|disk full|caller=cmd/main.go:42'' @ [newline])] \<and>
   written (writePlainAny example_runtime (Some (logWriter 0)) levelInfo error_and_stringer plain_world) \<noteq>
     [(logWriter 0, ''2024-05-06T07:08:09.000Z|info|DiskError(28)|caller=cmd/main.go:42'' @ [newline])]"
  by (simp add: spec_message_def error_and_stringer_def writePlainAny_def written_writePlainText
      plain_line_def example_caller plain_world_def initial_def levelInfo_def getTimestamp_def)
     (simp add: example_runtime_def)

text \<open>
  C4, amended. In plain mode the message is chosen in the order of the type switch: a
  string's own value, else an error's \<^verbatim>\<open>Error()\<close> message, else a Stringer's
  \<^verbatim>\<open>String()\<close> form, else the JSON text that the encoder writes for the value; a value
  that is both an error and a Stringer is printed with its error message. The line handed
  to the writer carries that message, and nothing is handed over when the JSON encoding
  fails.
\<close>

theorem plain_message_precedence:
  "written (writePlainAny rt (Some x) level val w) =
     written w @ (case switch_message val of
                    Inl err \<Rightarrow> []
                  | Inr m \<Rightarrow> [(x, plain_line rt w (shown_level rt w level) m)])"
  by (cases val)
     (auto simp: writePlainAny_def switch_message_def shown_level_def written_writePlainText
        written_writePlainValue Marshal_def Let_def split: option.splits sum.splits)

lemma stdlog_writePlainText_nil:
  "stdlog (writePlainText rt None level msg w) = stdlog w @ [plain_line rt w level msg] \<and>
   written (writePlainText rt None level msg w) = written w"
  by (simp add: writePlainText_def plain_line_def log_Println_def callerKey_def
      getTimestamp_def Let_def)

lemma stdlog_writePlainText_ok:
  "Write_result rt x = None \<Longrightarrow> stdlog (writePlainText rt (Some x) level msg w) = stdlog w"
  by (simp add: writePlainText_def io_Write_def Let_def)

lemma has_text_switch_message: "has_text val \<Longrightarrow> \<exists>m. switch_message val = Inr m"
  by (cases val) (auto simp: has_text_def switch_message_def split: option.splits)

lemma writePlainAny_has_text:
  "has_text val \<Longrightarrow> switch_message val = Inr m \<Longrightarrow>
     writePlainAny rt wr level val w = writePlainText rt wr (shown_level rt w level) m w"
  by (cases val)
     (auto simp: has_text_def switch_message_def writePlainAny_def shown_level_def
        split: option.splits)

lemma writePlainAny_unserializable:
  "switch_message val = Inl err \<Longrightarrow>
     writePlainAny rt wr level val w = log_Println (Error_text err) w"
  by (cases val)
     (auto simp: switch_message_def writePlainAny_def writePlainValue_def Marshal_def
        split: option.splits sum.splits)

text \<open>
  C7, as stated, fails: for a channel, which is no string, error or Stringer, plain mode
  hands nothing to the writer; the encoder's error goes to the standard log.
\<close>

theorem plain_channel_no_line:
  "written (writePlainAny example_runtime (Some (logWriter 0)) levelError a_channel plain_world) = [] \<and>
   stdlog (writePlainAny example_runtime (Some (logWriter 0)) levelError a_channel plain_world) =
     [''json: unsupported type: chan int'']"
  by (simp add: writePlainAny_unserializable [where err = "OtherError ''json: unsupported type: chan int''"]
      switch_message_def a_channel_def log_Println_def plain_world_def initial_def)

text \<open>
  C7, amended. In plain mode, for every level and every payload that is a string, an
  error or a Stringer, the bytes handed to the writer are exactly
  \<^verbatim>\<open><timestamp><sep><level><sep><message><sep>caller=<file:line>\n\<close>, the level wrapped
  in its colour when colour is on; with a nil writer that line goes to the standard log.
  For a payload whose JSON encoding fails nothing is handed to the writer, and the error
  of the encoding goes to the standard log.
\<close>

theorem plain_line_format:
  "(has_text val \<longrightarrow>
      (\<exists>m. switch_message val = Inr m \<and>
           written (writePlainAny rt (Some x) level val w) =
             written w @ [(x, plain_line rt w (shown_level rt w level) m)] \<and>
           written (writePlainAny rt None level val w) = written w \<and>
           stdlog (writePlainAny rt None level val w) =
             stdlog w @ [plain_line rt w (shown_level rt w level) m])) \<and>
   (switch_message val = Inl err \<longrightarrow>
      written (writePlainAny rt (Some x) level val w) = written w \<and>
      stdlog (writePlainAny rt (Some x) level val w) = stdlog w @ [Error_text err])"
proof (intro conjI impI)
  assume h: "has_text val"
  then obtain m where m: "switch_message val = Inr m"
    using has_text_switch_message by blast
  show "\<exists>m. switch_message val = Inr m \<and>
           written (writePlainAny rt (Some x) level val w) =
             written w @ [(x, plain_line rt w (shown_level rt w level) m)] \<and>
           written (writePlainAny rt None level val w) = written w \<and>
           stdlog (writePlainAny rt None level val w) =
             stdlog w @ [plain_line rt w (shown_level rt w level) m]"
    using m by (simp add: writePlainAny_has_text [OF h m] written_writePlainText
        stdlog_writePlainText_nil)
next
  assume e: "switch_message val = Inl err"
  show "written (writePlainAny rt (Some x) level val w) = written w"
    by (simp add: writePlainAny_unserializable [OF e] log_Println_def)
  show "stdlog (writePlainAny rt (Some x) level val w) = stdlog w @ [Error_text err]"
    by (simp add: writePlainAny_unserializable [OF e] log_Println_def)
qed

theorem plain_line_format_witness:
  "has_text (StringVal ''hello'') \<and>
   written (writePlainAny example_runtime (Some (logWriter 0)) levelInfo (StringVal ''hello'') plain_world) =
     [(logWriter 0, ''2024-05-06T07:08:09.000Z|info|hello|caller=cmd/main.go:42'' @ [newline])] \<and>
   switch_message a_channel = Inl (OtherError ''json: unsupported type: chan int'') \<and>
   written (writePlainAny example_runtime (Some (logWriter 0)) levelInfo a_channel plain_world) = []"
proof -
  have h1: "has_text (StringVal ''hello'')"
    by (simp add: has_text_def)
  have h2: "switch_message a_channel = Inl (OtherError ''json: unsupported type: chan int'')"
    by (simp add: switch_message_def a_channel_def)
  have m: "switch_message (StringVal ''hello'') = Inr ''hello''"
    by (simp add: switch_message_def)
  have l: "plain_line example_runtime plain_world (shown_level example_runtime plain_world levelInfo) ''hello'' =
             ''2024-05-06T07:08:09.000Z|info|hello|caller=cmd/main.go:42'' @ [newline]"
    by (simp add: plain_line_def shown_level_def example_caller plain_world_def initial_def
        levelInfo_def getTimestamp_def)
       (simp add: example_runtime_def)
  have e: "written plain_world = []"
    by (simp add: plain_world_def initial_def)
  from plain_line_format [where val = "StringVal ''hello''" and rt = example_runtime
      and x = "logWriter 0" and level = levelInfo and w = plain_world]
  have a: "written (writePlainAny example_runtime (Some (logWriter 0)) levelInfo (StringVal ''hello'') plain_world) =
     [(logWriter 0, ''2024-05-06T07:08:09.000Z|info|hello|caller=cmd/main.go:42'' @ [newline])]"
    using h1 m l e by simp
  from plain_line_format [where val = a_channel
      and err = "OtherError ''json: unsupported type: chan int''" and rt = example_runtime
      and x = "logWriter 0" and level = levelInfo and w = plain_world]
  have b: "written (writePlainAny example_runtime (Some (logWriter 0)) levelInfo a_channel plain_world) = []"
    using h2 e by simp
  show ?thesis using h1 h2 a b by simp
qed

section \<open>Properties of the JSON encoder\<close>

subsection \<open>The object of JSON mode\<close>

lemma assign_entry:
  "assign callerKey c (assign contentKey v (assign levelKey l (assign timestampKey t []))) =
   [(''@timestamp'', t), (''level'', l), (''content'', v), (''caller'', c)]"
  by (simp add: callerKey_def contentKey_def levelKey_def timestampKey_def)

lemma key_order:
  "bytes_less ''caller'' ''content''" "bytes_less ''caller'' ''level''"
  "bytes_less ''content'' ''level''" "\<not> bytes_less ''caller'' ''@timestamp''"
  by (simp_all add: byte_def)

lemma sorted_entry:
  "sorted_members [(''@timestamp'', t), (''level'', l), (''content'', v), (''caller'', c)] =
   [(''@timestamp'', t), (''caller'', c), (''content'', v), (''level'', l)]"
  unfolding sorted_members_def
  by (simp only: foldr.simps o_apply id_apply insert_member.simps fst_conv
      key_order if_True if_False)

lemma Marshal_members_entry:
  "Marshal_members [(''@timestamp'', StringVal t), (''caller'', StringVal c), (''content'', v),
                    (''level'', StringVal l)] =
   (case Marshal v of Inl err \<Rightarrow> Inl err | Inr text \<Rightarrow>
      Inr (appendString ''@timestamp'' @ '':'' @ appendString t @ '','' @
           appendString ''caller'' @ '':'' @ appendString c @ '','' @
           appendString ''content'' @ '':'' @ text @ '','' @
           appendString ''level'' @ '':'' @ appendString l))"
  by (cases "Marshal v")
     (simp_all add: Marshal_def [of "StringVal c"] Marshal_def [of "StringVal l"]
       Marshal_def [of "StringVal t"])

lemma Marshal_map_entry:
  "Marshal_map
     (assign callerKey (StringVal c) (assign contentKey v (assign levelKey (StringVal l)
        (assign timestampKey (StringVal t) [])))) =
   (case Marshal v of Inl err \<Rightarrow> Inl err | Inr text \<Rightarrow> Inr (json_object t l text c))"
  unfolding Marshal_map_def assign_entry sorted_entry Marshal_members_entry json_object_def
  by (cases "Marshal v") simp_all


lemma output_json:
  "encoding w \<noteq> plainEncodingType \<Longrightarrow>
     output_fn rt wr level v w =
       (case Marshal v of
          Inl err \<Rightarrow> log_Println (Error_text err) w
        | Inr text \<Rightarrow>
            (case wr of
               None \<Rightarrow>
                 log_Println (json_object (getTimestamp rt w) level text (getCaller rt callerDepth)) w
             | Some x \<Rightarrow>
                 snd (io_Write rt x
                       (json_object (getTimestamp rt w) level text (getCaller rt callerDepth)
                          @ [newline]) w)))"
  unfolding output_fn_def writeJson_def Marshal_map_entry
  by (cases "Marshal v") simp_all

lemma written_output_json:
  "encoding w \<noteq> plainEncodingType \<Longrightarrow>
     written (output_fn rt (Some x) level v w) =
       written w @ (case Marshal v of
                      Inl err \<Rightarrow> []
                    | Inr text \<Rightarrow>
                        [(x, json_object (getTimestamp rt w) level text (getCaller rt callerDepth)
                               @ [newline])])"
  by (cases "Marshal v") (simp_all add: output_json io_Write_def log_Println_def)


subsection \<open>UTF-8: encoding what was decoded\<close>

lemma char_of_byte: "char_of (byte c) = c"
  by (simp add: byte_def)

lemma dm64: "(b::nat) < 64 \<Longrightarrow> (a * 64 + b) div 64 = a \<and> (a * 64 + b) mod 64 = b"
  by simp

lemma two_bytes:
  fixes a b :: nat
  assumes "2 \<le> a" "a < 32" "b < 64"
  shows "EncodeRune (a * 64 + b) = [char_of (0xC0 + a), char_of (0x80 + b)]"
proof -
  have "0x80 \<le> a * 64 + b" "a * 64 + b < 0x800"
    using assms by linarith+
  then show ?thesis
    using dm64 [OF assms(3), of a] by (simp add: EncodeRune_def)
qed

lemma three_bytes:
  fixes a b c :: nat
  assumes "a < 16" "b < 64" "c < 64" "0x800 \<le> a * 4096 + b * 64 + c"
    and "a * 4096 + b * 64 + c < 0xD800 \<or> 0xDFFF < a * 4096 + b * 64 + c"
  shows "EncodeRune (a * 4096 + b * 64 + c) =
           [char_of (0xE0 + a), char_of (0x80 + b), char_of (0x80 + c)]"
proof -
  define r where "r = a * 4096 + b * 64 + c"
  have r64: "r = (a * 64 + b) * 64 + c"
    by (simp add: r_def algebra_simps)
  have r4096: "r = a * 4096 + (b * 64 + c)"
    by (simp add: r_def)
  have lt: "b * 64 + c < 4096"
    using assms(2,3) by linarith
  have d1: "r div 64 = a * 64 + b" "r mod 64 = c"
    unfolding r64 using dm64 [OF assms(3), of "a * 64 + b"] by simp_all
  have d2: "r div 64 mod 64 = b"
    unfolding d1 using dm64 [OF assms(2), of a] by simp
  have d3: "r div 4096 = a"
    unfolding r4096 using lt by simp
  have rng: "0x800 \<le> r" "r < 0x10000" "r < 0xD800 \<or> 0xDFFF < r"
    using assms unfolding r_def by linarith+
  have enc: "EncodeRune r =
      [char_of (0xE0 + r div 4096), char_of (0x80 + r div 64 mod 64), char_of (0x80 + r mod 64)]"
    using rng by (auto simp: EncodeRune_def)
  show ?thesis
    unfolding r_def [symmetric] enc d3 d2 d1(2) ..
qed

lemma four_bytes:
  fixes a b c d :: nat
  assumes "a < 8" "b < 64" "c < 64" "d < 64"
    and "0x10000 \<le> a * 262144 + b * 4096 + c * 64 + d"
    and "a * 262144 + b * 4096 + c * 64 + d \<le> 0x10FFFF"
  shows "EncodeRune (a * 262144 + b * 4096 + c * 64 + d) =
           [char_of (0xF0 + a), char_of (0x80 + b), char_of (0x80 + c), char_of (0x80 + d)]"
proof -
  define r where "r = a * 262144 + b * 4096 + c * 64 + d"
  have r64: "r = ((a * 64 + b) * 64 + c) * 64 + d"
    by (simp add: r_def algebra_simps)
  have d1: "r div 64 = (a * 64 + b) * 64 + c" "r mod 64 = d"
    unfolding r64 using dm64 [OF assms(4), of "(a * 64 + b) * 64 + c"] by simp_all
  have d2: "r div 64 mod 64 = c" "r div 64 div 64 = a * 64 + b"
    unfolding d1 using dm64 [OF assms(3), of "a * 64 + b"] by simp_all
  have d3: "r div 64 div 64 mod 64 = b" "r div 64 div 64 div 64 = a"
    unfolding d2 using dm64 [OF assms(2), of a] by simp_all
  have e1: "r div 4096 = r div 64 div 64"
    by (simp add: div_mult2_eq [symmetric])
  have e2: "r div 262144 = r div 64 div 64 div 64"
    by (simp add: div_mult2_eq [symmetric])
  have rng: "0x10000 \<le> r" "r \<le> 0x10FFFF"
    using assms unfolding r_def by linarith+
  have enc: "EncodeRune r =
      [char_of (0xF0 + r div 262144), char_of (0x80 + r div 4096 mod 64),
       char_of (0x80 + r div 64 mod 64), char_of (0x80 + r mod 64)]"
    using rng by (auto simp: EncodeRune_def)
  have f: "r div 262144 = a" "r div 4096 mod 64 = b" "r div 64 mod 64 = c" "r mod 64 = d"
    using d1(2) d2(1) d3 by (simp_all only: e1 e2)
  show ?thesis
    unfolding r_def [symmetric] enc f ..
qed

lemma Decode_ascii:
  "byte c0 < 0x80 \<Longrightarrow> DecodeRune (c0 # cs) = (byte c0, 1)"
  by simp

lemma Encode_ascii: "byte c0 < 0x80 \<Longrightarrow> EncodeRune (byte c0) = [c0]"
  by (simp add: EncodeRune_def char_of_byte)

lemma Decode_two:
  assumes "0xC2 \<le> byte c0" "byte c0 \<le> 0xDF"
    and "DecodeRune (c0 # cs) = (r, n)" and "\<not> (r = RuneError \<and> n = 1)"
  shows "\<exists>c1 rest. cs = c1 # rest \<and> n = 2 \<and> EncodeRune r = [c0, c1] \<and>
           (\<forall>t. DecodeRune (c0 # c1 # t) = (r, n))"
proof (cases cs)
  case Nil
  with assms show ?thesis by simp
next
  case (Cons c1 rest)
  show ?thesis
  proof (cases "between 0x80 0xBF c1")
    case False
    with assms Cons show ?thesis by simp
  next
    case True
    define a where "a = byte c0 - 0xC0"
    define b where "b = byte c1 - 0x80"
    have ab: "2 \<le> a" "a < 32" "b < 64" "0xC0 + a = byte c0" "0x80 + b = byte c1"
      using assms(1,2) True unfolding a_def b_def between_def by linarith+
    have rn: "r = a * 64 + b" "n = 2"
      using assms Cons True by (simp_all add: a_def b_def)
    have "EncodeRune r = [c0, c1]"
      unfolding rn using two_bytes [OF ab(1,2,3)] by (simp add: ab(4,5) char_of_byte)
    moreover have "\<forall>t. DecodeRune (c0 # c1 # t) = (r, n)"
      using assms(1,2) True rn by (simp add: a_def b_def)
    ultimately show ?thesis using Cons rn by simp
  qed
qed


lemma second_range:
  assumes "between (second_lo b0) (second_hi b0) c1"
  shows "0x80 \<le> byte c1" "byte c1 \<le> 0xBF" "b0 = 0xE0 \<Longrightarrow> 0xA0 \<le> byte c1"
    "b0 = 0xED \<Longrightarrow> byte c1 \<le> 0x9F" "b0 = 0xF0 \<Longrightarrow> 0x90 \<le> byte c1"
    "b0 = 0xF4 \<Longrightarrow> byte c1 \<le> 0x8F"
  using assms by (auto simp: between_def second_lo_def second_hi_def split: if_splits)

lemma Decode_three:
  assumes "0xE0 \<le> byte c0" "byte c0 \<le> 0xEF"
    and "DecodeRune (c0 # cs) = (r, n)" and "\<not> (r = RuneError \<and> n = 1)"
  shows "\<exists>c1 c2 rest. cs = c1 # c2 # rest \<and> n = 3 \<and> EncodeRune r = [c0, c1, c2] \<and>
           (\<forall>t. DecodeRune (c0 # c1 # c2 # t) = (r, n))"
proof -
  have ok: "\<exists>c1 c2 rest. cs = c1 # c2 # rest \<and>
              between (second_lo (byte c0)) (second_hi (byte c0)) c1 \<and> between 0x80 0xBF c2"
  proof (rule ccontr)
    assume "\<not> ?thesis"
    then have "DecodeRune (c0 # cs) = (RuneError, 1)"
      using assms(1,2) by (auto simp: Let_def split: list.splits)
    with assms(3,4) show False by simp
  qed
  then obtain c1 c2 rest where cs: "cs = c1 # c2 # rest"
    and s: "between (second_lo (byte c0)) (second_hi (byte c0)) c1" and t: "between 0x80 0xBF c2"
    by blast
  define a where "a = byte c0 - 0xE0"
  define b where "b = byte c1 - 0x80"
  define c where "c = byte c2 - 0x80"
  note sr = second_range [OF s]
  have abc: "a < 16" "b < 64" "c < 64" "0xE0 + a = byte c0" "0x80 + b = byte c1"
    "0x80 + c = byte c2"
    using assms(1,2) sr(1,2) t unfolding a_def b_def c_def between_def by linarith+
  have rn: "r = a * 4096 + b * 64 + c" "n = 3"
    using assms cs s t by (simp_all add: a_def b_def c_def)
  have lo: "0x800 \<le> a * 4096 + b * 64 + c"
  proof (cases "a = 0")
    case True
    then have "byte c0 = 0xE0" using abc(4) by simp
    then have "0x20 \<le> b" using sr(3) abc(5) by linarith
    then show ?thesis by linarith
  next
    case False
    then show ?thesis by linarith
  qed
  have sur: "a * 4096 + b * 64 + c < 0xD800 \<or> 0xDFFF < a * 4096 + b * 64 + c"
  proof -
    consider "a \<le> 12" | "a = 13" | "14 \<le> a" by linarith
    then show ?thesis
    proof cases
      case 1
      then show ?thesis using abc(2,3) by linarith
    next
      case 2
      then have "byte c0 = 0xED" using abc(4) by simp
      then have "b \<le> 0x1F" using sr(4) abc(5) by linarith
      then show ?thesis using 2 abc(3) by linarith
    next
      case 3
      then show ?thesis by linarith
    qed
  qed
  have "EncodeRune r = [c0, c1, c2]"
    unfolding rn using three_bytes [OF abc(1,2,3) lo sur]
    by (simp add: abc(4,5,6) char_of_byte)
  moreover have "\<forall>t. DecodeRune (c0 # c1 # c2 # t) = (r, n)"
    using assms(1,2) s t rn by (simp add: a_def b_def c_def)
  ultimately show ?thesis using cs rn by simp
qed


lemma Decode_four:
  assumes "0xF0 \<le> byte c0" "byte c0 \<le> 0xF4"
    and "DecodeRune (c0 # cs) = (r, n)" and "\<not> (r = RuneError \<and> n = 1)"
  shows "\<exists>c1 c2 c3 rest. cs = c1 # c2 # c3 # rest \<and> n = 4 \<and>
           EncodeRune r = [c0, c1, c2, c3] \<and>
           (\<forall>t. DecodeRune (c0 # c1 # c2 # c3 # t) = (r, n))"
proof -
  have ok: "\<exists>c1 c2 c3 rest. cs = c1 # c2 # c3 # rest \<and>
              between (second_lo (byte c0)) (second_hi (byte c0)) c1 \<and>
              between 0x80 0xBF c2 \<and> between 0x80 0xBF c3"
  proof (rule ccontr)
    assume "\<not> ?thesis"
    then have "DecodeRune (c0 # cs) = (RuneError, 1)"
      using assms(1,2) by (auto simp: Let_def split: list.splits)
    with assms(3,4) show False by simp
  qed
  then obtain c1 c2 c3 rest where cs: "cs = c1 # c2 # c3 # rest"
    and s: "between (second_lo (byte c0)) (second_hi (byte c0)) c1"
    and t: "between 0x80 0xBF c2" and u: "between 0x80 0xBF c3"
    by blast
  define a where "a = byte c0 - 0xF0"
  define b where "b = byte c1 - 0x80"
  define c where "c = byte c2 - 0x80"
  define d where "d = byte c3 - 0x80"
  note sr = second_range [OF s]
  have abc: "a < 8" "b < 64" "c < 64" "d < 64" "0xF0 + a = byte c0" "0x80 + b = byte c1"
    "0x80 + c = byte c2" "0x80 + d = byte c3" "a \<le> 4"
    using assms(1,2) sr(1,2) t u unfolding a_def b_def c_def d_def between_def by linarith+
  have rn: "r = a * 262144 + b * 4096 + c * 64 + d" "n = 4"
    using assms cs s t u by (simp_all add: a_def b_def c_def d_def)
  have lo: "0x10000 \<le> a * 262144 + b * 4096 + c * 64 + d"
  proof (cases "a = 0")
    case True
    then have "byte c0 = 0xF0" using abc(5) by simp
    then have "0x10 \<le> b" using sr(5) abc(6) by linarith
    then show ?thesis by linarith
  next
    case False
    then show ?thesis by linarith
  qed
  have hi: "a * 262144 + b * 4096 + c * 64 + d \<le> 0x10FFFF"
  proof (cases "a = 4")
    case True
    then have "byte c0 = 0xF4" using abc(5) by simp
    then have "b \<le> 0xF" using sr(6) abc(6) by linarith
    then show ?thesis using True abc(3,4) by linarith
  next
    case False
    then have "a \<le> 3" using abc(9) by linarith
    then show ?thesis using abc(2,3,4) by linarith
  qed
  have "EncodeRune r = [c0, c1, c2, c3]"
    unfolding rn using four_bytes [OF abc(1,2,3,4) lo hi]
    by (simp add: abc(5,6,7,8) char_of_byte)
  moreover have "\<forall>t. DecodeRune (c0 # c1 # c2 # c3 # t) = (r, n)"
    using assms(1,2) s t u rn by (simp add: a_def b_def c_def d_def)
  ultimately show ?thesis using cs rn by simp
qed

text \<open>
  A well-formed sequence at the head of the bytes: the rune encodes to exactly the bytes
  it was decoded from, and decoding does not look beyond them.
\<close>

lemma Decode_valid:
  assumes "DecodeRune (c0 # cs) = (r, n)" and "\<not> (r = RuneError \<and> n = 1)"
  shows "0 < n \<and> n - 1 \<le> length cs \<and> EncodeRune r = c0 # take (n - 1) cs \<and>
         (\<forall>t. DecodeRune (c0 # take (n - 1) cs @ t) = (r, n))"
proof -
  consider "byte c0 < 0x80" | "0xC2 \<le> byte c0 \<and> byte c0 \<le> 0xDF"
    | "0xE0 \<le> byte c0 \<and> byte c0 \<le> 0xEF" | "0xF0 \<le> byte c0 \<and> byte c0 \<le> 0xF4"
    | "0x80 \<le> byte c0 \<and> byte c0 < 0xC2 \<or> 0xF4 < byte c0"
    by linarith
  then show ?thesis
  proof cases
    case 1
    with assms(1) have "r = byte c0" "n = 1" by simp_all
    with 1 show ?thesis by (simp add: Encode_ascii)
  next
    case 2
    with Decode_two [OF _ _ assms] show ?thesis by auto
  next
    case 3
    with Decode_three [OF _ _ assms] show ?thesis by auto
  next
    case 4
    with Decode_four [OF _ _ assms] show ?thesis by auto
  next
    case 5
    then have "DecodeRune (c0 # cs) = (RuneError, 1)" by auto
    with assms show ?thesis by simp
  qed
qed

subsection \<open>Reading back what \<^verbatim>\<open>appendString\<close> wrote\<close>

lemma unhex_hex_all: "list_all (\<lambda>n. unhex (hex n) = Some n) [0..<16]"
  by code_simp

lemma unhex_hex: "n < 16 \<Longrightarrow> unhex (hex n) = Some n"
  using unhex_hex_all by (simp add: list_all_iff)

lemma unquote_safe:
  "htmlSafe c \<Longrightarrow> unquote_body (c # t) = prepend [c] (unquote_body t)"
  by (simp add: htmlSafe_def)

lemma unquote_replacement:
  "unquote_body ([backslash, CHR ''u'', CHR ''f'', CHR ''f'', CHR ''f'', CHR ''d''] @ t) =
     prepend (EncodeRune RuneError) (unquote_body t)"
  by (simp add: dquote_def backslash_def unhex_def between_def byte_def IsSurrogate_def
      RuneError_def)


lemma unquote_line_separator:
  "r = 0x2028 \<or> r = 0x2029 \<Longrightarrow>
     unquote_body ([backslash, CHR ''u'', CHR ''2'', CHR ''0'', CHR ''2'', hex (r mod 16)] @ t) =
       prepend (EncodeRune r) (unquote_body t)"
  by (auto simp: dquote_def backslash_def unhex_def between_def byte_def IsSurrogate_def
      hex_def)

lemma unquote_u00:
  assumes "byte c < 0x80"
  shows "unquote_body ([backslash, CHR ''u'', CHR ''0'', CHR ''0'', hex (byte c div 16),
                        hex (byte c mod 16)] @ t) =
           prepend [c] (unquote_body t)"
proof -
  have h: "unhex (hex (byte c div 16)) = Some (byte c div 16)"
    "unhex (hex (byte c mod 16)) = Some (byte c mod 16)"
    using assms by (simp_all add: unhex_hex)
  have z: "unhex (CHR ''0'') = Some 0"
    by (simp add: unhex_def between_def byte_def)
  have g: "getu4 (CHR ''0'' # CHR ''0'' # hex (byte c div 16) # hex (byte c mod 16) # t) =
             Some (byte c)"
    by (simp add: h z)
  have e: "EncodeRune (byte c) = [c]" "\<not> IsSurrogate (byte c)"
    using assms by (simp_all add: Encode_ascii IsSurrogate_def)
  have u: "CHR ''u'' \<noteq> dquote" "CHR ''u'' \<noteq> backslash" "backslash \<noteq> dquote"
    by (simp_all add: dquote_def backslash_def)
  show ?thesis
    by (simp add: h z e u)
qed

lemma unquote_escape:
  assumes "byte c < 0x80"
  shows "unquote_body (escape c @ t) = prepend [c] (unquote_body t)"
proof -
  have u: "backslash \<noteq> dquote"
    by (simp add: dquote_def backslash_def)
  consider "c = backslash \<or> c = dquote" | "c = CHR 0x08" | "c = CHR 0x0C" | "c = CHR 0x0A"
    | "c = CHR 0x0D" | "c = CHR 0x09"
    | "c \<noteq> backslash" "c \<noteq> dquote" "c \<noteq> CHR 0x08" "c \<noteq> CHR 0x0C" "c \<noteq> CHR 0x0A"
      "c \<noteq> CHR 0x0D" "c \<noteq> CHR 0x09"
    by blast
  then show ?thesis
  proof cases
    case 1
    then show ?thesis using u by (auto simp: escape_def)
  next
    case 2
    then show ?thesis by (simp add: escape_def dquote_def backslash_def)
  next
    case 3
    then show ?thesis by (simp add: escape_def dquote_def backslash_def)
  next
    case 4
    then show ?thesis by (simp add: escape_def dquote_def backslash_def)
  next
    case 5
    then show ?thesis by (simp add: escape_def dquote_def backslash_def)
  next
    case 6
    then show ?thesis by (simp add: escape_def dquote_def backslash_def)
  next
    case 7
    then have "escape c = [backslash, CHR ''u'', CHR ''0'', CHR ''0'', hex (byte c div 16),
                           hex (byte c mod 16)]"
      by (simp add: escape_def)
    then show ?thesis using unquote_u00 [OF assms] by simp
  qed
qed

lemma unquote_sequence:
  assumes "0x80 \<le> byte c" and "DecodeRune (c # cs) = (r, n)" and "\<not> (r = RuneError \<and> n = 1)"
  shows "unquote_body (c # take (n - 1) cs @ t) = prepend (c # take (n - 1) cs) (unquote_body t)"
proof -
  note v = Decode_valid [OF assms(2,3)]
  have d: "DecodeRune (c # take (n - 1) cs @ t) = (r, n)"
    using v by blast
  have l: "length (take (n - 1) cs) = n - 1"
    using v by simp
  have c: "c \<noteq> dquote" "c \<noteq> backslash" "\<not> byte c < 0x20" "\<not> byte c < 0x80"
    using assms(1) by (auto simp: dquote_def backslash_def byte_def)
  have "unquote_body (c # take (n - 1) cs @ t) =
          prepend (EncodeRune r) (unquote_body (drop (n - 1) (take (n - 1) cs @ t)))"
    using c d by (simp del: DecodeRune.simps)
  also have "drop (n - 1) (take (n - 1) cs @ t) = t"
    using l by simp
  also have "EncodeRune r = c # take (n - 1) cs"
    using v by blast
  finally show ?thesis .
qed

lemma prepend_Some: "prepend p (Some (t, rest)) = Some (p @ t, rest)"
  by (simp add: prepend_def)

lemma unquote_appendString_body:
  "unquote_body (appendString_body s @ dquote # rest) = Some (coerced s, rest)"
proof (induction "length s" arbitrary: s rule: less_induct)
  case less
  show ?case
  proof (cases s)
    case Nil
    then show ?thesis by simp
  next
    case (Cons c cs)
    obtain r n where d: "DecodeRune (c # cs) = (r, n)"
      by (cases "DecodeRune (c # cs)")
    have ih: "\<And>s'. length s' \<le> length cs \<Longrightarrow>
                unquote_body (appendString_body s' @ dquote # rest) = Some (coerced s', rest)"
      using less Cons by simp
    show ?thesis
    proof (cases "byte c < 0x80")
      case True
      then have dr: "r = byte c" "n = 1"
        using d by simp_all
      have co: "coerced (c # cs) = c # coerced cs"
        using True by (simp add: RuneError_def)
      show ?thesis
      proof (cases "htmlSafe c")
        case True
        have "appendString_body (c # cs) = c # appendString_body cs"
          using True \<open>byte c < 0x80\<close> by simp
        then show ?thesis
          using unquote_safe [OF True] ih [of cs] co Cons by (simp add: prepend_Some)
      next
        case False
        have "appendString_body (c # cs) = escape c @ appendString_body cs"
          using False \<open>byte c < 0x80\<close> by simp
        then show ?thesis
          using unquote_escape [OF \<open>byte c < 0x80\<close>] ih [of cs] co Cons
          by (simp add: prepend_Some)
      qed
    next
      case False
      note hi = this
      show ?thesis
      proof (cases "r = RuneError \<and> n = 1")
        case True
        have a: "appendString_body (c # cs) =
                   [backslash, CHR ''u'', CHR ''f'', CHR ''f'', CHR ''f'', CHR ''d'']
                     @ appendString_body cs"
          using hi d True by (simp del: DecodeRune.simps)
        have co: "coerced (c # cs) = EncodeRune RuneError @ coerced cs"
          using d True by (simp del: DecodeRune.simps)
        show ?thesis
          unfolding Cons a co append_assoc unquote_replacement
          using ih [of cs] by (simp add: prepend_Some)
      next
        case False
        note v = Decode_valid [OF d False]
        have co: "coerced (c # cs) = c # take (n - 1) cs @ coerced (drop (n - 1) cs)"
          using d False by (auto simp del: DecodeRune.simps)
        have ih': "unquote_body (appendString_body (drop (n - 1) cs) @ dquote # rest) =
                     Some (coerced (drop (n - 1) cs), rest)"
          using ih [of "drop (n - 1) cs"] by simp
        show ?thesis
        proof (cases "r = 0x2028 \<or> r = 0x2029")
          case True
          have a: "appendString_body (c # cs) =
                     [backslash, CHR ''u'', CHR ''2'', CHR ''0'', CHR ''2'', hex (r mod 16)]
                       @ appendString_body (drop (n - 1) cs)"
            using hi d False True by (auto simp del: DecodeRune.simps)
          have e: "EncodeRune r = c # take (n - 1) cs"
            using v by blast
          show ?thesis
            unfolding Cons a co append_assoc unquote_line_separator [OF True] ih'
            by (simp add: prepend_Some e)
        next
          case nl: False
          have a: "appendString_body (c # cs) =
                     c # take (n - 1) cs @ appendString_body (drop (n - 1) cs)"
            using hi d False nl by (auto simp del: DecodeRune.simps)
          have "0x80 \<le> byte c" using hi by simp
          from unquote_sequence [OF this d False]
          have u: "unquote_body (c # take (n - 1) cs
                     @ (appendString_body (drop (n - 1) cs) @ dquote # rest)) =
                   prepend (c # take (n - 1) cs)
                     (unquote_body (appendString_body (drop (n - 1) cs) @ dquote # rest))" .
          show ?thesis
            unfolding Cons a co using u ih' by (simp add: prepend_Some)
        qed
      qed
    qed
  qed
qed

text \<open>A string is read back as it was coerced; a valid string, as it was.\<close>

lemma unquote_appendString: "unquote (appendString s @ rest) = Some (coerced s, rest)"
  using unquote_appendString_body [of s rest] by (simp add: unquote_def appendString_def)

lemma coerced_valid: "ValidString s \<Longrightarrow> coerced s = s"
proof (induction "length s" arbitrary: s rule: less_induct)
  case less
  show ?case
  proof (cases s)
    case Nil
    then show ?thesis by simp
  next
    case (Cons c cs)
    obtain r n where d: "DecodeRune (c # cs) = (r, n)"
      by (cases "DecodeRune (c # cs)")
    have ok: "\<not> (r = RuneError \<and> n = 1)" and v: "ValidString (drop (n - 1) cs)"
      using less.prems Cons d by (auto simp del: DecodeRune.simps split: if_splits)
    have "coerced (drop (n - 1) cs) = drop (n - 1) cs"
      using less.hyps [of "drop (n - 1) cs"] v Cons by simp
    then show ?thesis
      using d ok Cons by (auto simp del: DecodeRune.simps)
  qed
qed

lemma ValidString_ascii: "list_all (\<lambda>c. byte c < 0x80) s \<Longrightarrow> ValidString s"
  by (induction s) (simp_all add: RuneError_def)

subsection \<open>The round trip of JSON mode\<close>

lemma parse_last_member:
  "parse_members (Suc n) (appendString k @ CHR '':'' # appendString v @ CHR ''}'' # rest) =
     Some ([(coerced k, coerced v)], rest)"
  by (simp add: unquote_appendString)

lemma parse_next_member:
  "parse_members (Suc n) (appendString k @ CHR '':'' # appendString v @ CHR '','' # rest) =
     (case parse_members n rest of
        None \<Rightarrow> None
      | Some (ms, rest') \<Rightarrow> Some ((coerced k, coerced v) # ms, rest'))"
  by (simp add: unquote_appendString)


lemma parse_four_members:
  "parse_members (Suc (Suc (Suc (Suc m))))
           (appendString k1 @ CHR '':'' # appendString v1 @ CHR '','' #
            appendString k2 @ CHR '':'' # appendString v2 @ CHR '','' #
            appendString k3 @ CHR '':'' # appendString v3 @ CHR '','' #
            appendString k4 @ CHR '':'' # appendString v4 @ CHR ''}'' # rest) =
         Some ([(coerced k1, coerced v1), (coerced k2, coerced v2), (coerced k3, coerced v3),
                (coerced k4, coerced v4)], rest)"
  by (simp only: parse_next_member parse_last_member option.case prod.case)

lemma json_object_members:
  "json_object ts level content caller =
     CHR ''{'' # appendString ''@timestamp'' @ CHR '':'' # appendString ts @ CHR '','' #
       appendString ''caller'' @ CHR '':'' # appendString caller @ CHR '','' #
       appendString ''content'' @ CHR '':'' # content @ CHR '','' #
       appendString ''level'' @ CHR '':'' # appendString level @ CHR ''}'' # []"
  by (simp add: json_object_def)

lemma length_json_object: "4 \<le> length (json_object ts level content caller @ t)"
  by (simp add: json_object_def appendString_def)

lemma key_coerced:
  "coerced ''@timestamp'' = ''@timestamp''" "coerced ''caller'' = ''caller''"
  "coerced ''content'' = ''content''" "coerced ''level'' = ''level''"
  "coerced ''info'' = ''info''" "coerced ''error'' = ''error''"
  by (rule coerced_valid, rule ValidString_ascii, simp add: byte_def)+


lemma Unmarshal_object_json_object:
  "Unmarshal_object (json_object ts level (appendString s) caller @ [newline]) =
     Some [(''@timestamp'', coerced ts), (''caller'', coerced caller), (''content'', coerced s),
           (''level'', coerced level)]"
proof -
  define body where "body =
       appendString ''@timestamp'' @ CHR '':'' # appendString ts @ CHR '','' #
       appendString ''caller'' @ CHR '':'' # appendString caller @ CHR '','' #
       appendString ''content'' @ CHR '':'' # appendString s @ CHR '','' #
       appendString ''level'' @ CHR '':'' # appendString level @ CHR ''}'' # [newline]"
  have t: "json_object ts level (appendString s) caller @ [newline] = CHR ''{'' # body"
    by (simp add: json_object_members body_def)
  define m where "m = length (CHR ''{'' # body) - 4"
  have "4 \<le> length (CHR ''{'' # body)"
    using length_json_object [of ts level "appendString s" caller "[newline]"] t by simp
  then have l: "length (CHR ''{'' # body) = Suc (Suc (Suc (Suc m)))"
    unfolding m_def by linarith
  have p: "parse_members (Suc (Suc (Suc (Suc m)))) body =
             Some ([(''@timestamp'', coerced ts), (''caller'', coerced caller),
                    (''content'', coerced s), (''level'', coerced level)],
                   [newline])"
    unfolding body_def parse_four_members key_coerced ..
  have sp: "list_all is_space [newline]"
    by (simp add: is_space_def newline_def)
  have "Unmarshal_object (CHR ''{'' # body) =
          (case parse_members (length (CHR ''{'' # body)) body of
             None \<Rightarrow> None
           | Some (ms, rest) \<Rightarrow> if list_all is_space rest then Some ms else None)"
    by (simp add: Unmarshal_object_def)
  then show ?thesis
    unfolding t l p using sp by simp
qed

lemma Unmarshal_json_object:
  "Unmarshal_mockedEntry (json_object ts level (appendString s) caller @ [newline]) =
     Some (coerced level, coerced s)"
  by (simp add: Unmarshal_mockedEntry_def Unmarshal_object_json_object member_def)

lemma appendString_0xFF:
  "appendString [CHR 0xFF] = dquote # backslash # ''ufffd'' @ [dquote]"
  by (simp add: appendString_def byte_def RuneError_def)

lemma coerced_0xFF: "coerced [CHR 0xFF] = [CHR 0xEF, CHR 0xBF, CHR 0xBD]"
  by (simp add: byte_def RuneError_def EncodeRune_def char_of_eq_iff)

lemma example_timestamp: "getTimestamp example_runtime w = ''2024-05-06T07:08:09.000Z''"
  by (simp add: getTimestamp_def example_runtime_def)

lemma initial_json: "encoding initial \<noteq> plainEncodingType" "written initial = []"
  by (simp_all add: initial_def jsonEncodingType_def plainEncodingType_def)

text \<open>
  C8, as stated, fails: a Go string need not be valid UTF-8. The payload of the single
  byte \<open>0xFF\<close> is written as the escape of \<open>U+FFFD\<close>, and decoding the record yields the three
  bytes of \<open>U+FFFD\<close>, not the payload.
\<close>

theorem json_invalid_utf8_not_restored:
  "written (output_fn example_runtime (Some (logWriter 0)) levelInfo (StringVal [CHR 0xFF]) initial) =
     [(logWriter 0,
       json_object ''2024-05-06T07:08:09.000Z'' ''info'' (dquote # backslash # ''ufffd'' @ [dquote])
         ''cmd/main.go:42'' @ [newline])] \<and>
   Unmarshal_mockedEntry
     (json_object ''2024-05-06T07:08:09.000Z'' ''info'' (dquote # backslash # ''ufffd'' @ [dquote])
        ''cmd/main.go:42'' @ [newline]) =
     Some (''info'', [CHR 0xEF, CHR 0xBF, CHR 0xBD]) \<and>
   [CHR 0xEF, CHR 0xBF, CHR 0xBD] \<noteq> [CHR 0xFF]"
proof -
  have w: "written (output_fn example_runtime (Some (logWriter 0)) levelInfo (StringVal [CHR 0xFF]) initial) =
     [(logWriter 0,
       json_object ''2024-05-06T07:08:09.000Z'' ''info'' (appendString [CHR 0xFF])
         ''cmd/main.go:42'' @ [newline])]"
    by (simp add: written_output_json [OF initial_json(1)] initial_json(2) Marshal_def
        example_timestamp example_caller levelInfo_def)
  have u: "Unmarshal_mockedEntry
     (json_object ''2024-05-06T07:08:09.000Z'' ''info'' (appendString [CHR 0xFF])
        ''cmd/main.go:42'' @ [newline]) =
     Some (''info'', [CHR 0xEF, CHR 0xBF, CHR 0xBD])"
    unfolding Unmarshal_json_object key_coerced coerced_0xFF ..
  show ?thesis
    using w u unfolding appendString_0xFF by simp
qed

text \<open>
  C8, amended. In JSON mode, for the levels info and error and every string payload that
  is valid UTF-8, the encoder hands the writer one JSON object with the keys
  \<open>@timestamp\<close>, \<open>caller\<close>, \<open>content\<close> and \<open>level\<close>, followed by a newline, and
  decoding it yields the level and the payload. For any string payload the decoded content
  is the payload with every byte that starts no well-formed UTF-8 sequence replaced by
  \<open>U+FFFD\<close>.
\<close>

theorem json_round_trip:
  assumes "encoding w \<noteq> plainEncodingType" and "level = levelInfo \<or> level = levelError"
  shows "\<exists>line.
           written (output_fn rt (Some x) level (StringVal s) w) = written w @ [(x, line)] \<and>
           line = json_object (getTimestamp rt w) level (appendString s) (getCaller rt callerDepth)
                    @ [newline] \<and>
           map_option (map fst) (Unmarshal_object line) =
             Some [''@timestamp'', ''caller'', ''content'', ''level''] \<and>
           Unmarshal_mockedEntry line = Some (level, coerced s) \<and>
           (ValidString s \<longrightarrow> Unmarshal_mockedEntry line = Some (level, s))"
proof -
  have "coerced levelInfo = levelInfo" "coerced levelError = levelError"
    unfolding levelInfo_def levelError_def by (rule key_coerced)+
  then have l: "coerced level = level"
    using assms(2) by blast
  show ?thesis
    by (simp add: written_output_json [OF assms(1)] Marshal_def Unmarshal_json_object
        Unmarshal_object_json_object l coerced_valid)
qed

theorem json_round_trip_witness:
  "encoding initial \<noteq> plainEncodingType \<and> ValidString ''hello'' \<and>
   written (output_fn example_runtime (Some (logWriter 0)) levelError (StringVal ''hello'') initial) =
     [(logWriter 0,
       json_object ''2024-05-06T07:08:09.000Z'' ''error'' (appendString ''hello'')
         ''cmd/main.go:42'' @ [newline])] \<and>
   Unmarshal_mockedEntry
     (json_object ''2024-05-06T07:08:09.000Z'' ''error'' (appendString ''hello'')
        ''cmd/main.go:42'' @ [newline]) = Some (''error'', ''hello'')"
proof -
  have v: "ValidString ''hello''"
    by (rule ValidString_ascii) (simp add: byte_def)
  have h: "levelError = levelInfo \<or> levelError = levelError"
    by simp
  have e: "levelError = ''error''"
    by (simp add: levelError_def)
  show ?thesis
    using v initial_json
      json_round_trip [OF initial_json(1) h, of example_runtime "logWriter 0" "''hello''"]
    unfolding example_timestamp example_caller e
    by auto
qed

section \<open>Properties of the configuration, the level filter and the active writer\<close>

subsection \<open>\<^verbatim>\<open>Load\<close> applies once\<close>

lemma Load_after_first: "setupOnce w \<Longrightarrow> Load rt c w = (None, w)"
  by (simp add: Load_def)

lemma Load_calls_after_first:
  "setupOnce w \<Longrightarrow> Load_calls rt cs w = (replicate (length cs) None, w)"
  by (induction cs) (simp_all add: Load_after_first)

lemma NewLogger_filename: "NewLogger env p = Inr l \<Longrightarrow> filename l = p"
  by (auto simp: NewLogger_def init_def startWorker_def Let_def
      split: if_splits option.splits sum.splits)

lemma setupLogLevel_twice: "setupLogLevel c (setupLogLevel c w) = setupLogLevel c w"
  by (simp add: setupLogLevel_def SetLevel_def)

lemma setupLogLevel_Path: "setupLogLevel (c\<lparr>Path := p\<rparr>) w = setupLogLevel c w"
  by (simp add: setupLogLevel_def)

text \<open>What \<^verbatim>\<open>setupWriter\<close> does, written out.\<close>

lemma setupWriter_console:
  "Mode c \<noteq> fileMode \<Longrightarrow>
     setupWriter rt c w =
       (None, w\<lparr>created := created w + 1,
                writer := Some (defaultWriter (logWriter (created w)))\<rparr>)"
  by (simp add: setupWriter_def setupWithConsole_def newConsoleWriter_def SetWriter_def
      Store_def)

lemma setupWriter_file_fails:
  "Mode c = fileMode \<Longrightarrow> NewLogger (os rt) (log_file rt c) = Inl e \<Longrightarrow>
     setupWriter rt c w = (Some e, setupLogLevel c w)"
  by (cases "Path c = []")
     (simp_all add: setupWriter_def setupWithFiles_def newFileWriter_def createOutput_def
       log_file_def setupLogLevel_Path Let_def)

lemma setupWriter_file_opens:
  "Mode c = fileMode \<Longrightarrow> NewLogger (os rt) (log_file rt c) = Inr l \<Longrightarrow>
     setupWriter rt c w =
       (None, (setupLogLevel c w)\<lparr>created := created (setupLogLevel c w) + 1,
                writer := Some (defaultWriter (fileLogger (created (setupLogLevel c w))
                                                (log_file rt c)))\<rparr>)"
proof -
  assume m: "Mode c = fileMode" and n: "NewLogger (os rt) (log_file rt c) = Inr l"
  have f: "filename l = log_file rt c"
    using n by (rule NewLogger_filename)
  show ?thesis
    using m n f
    by (cases "Path c = []")
       (simp_all add: setupWriter_def setupWithFiles_def newFileWriter_def createOutput_def
         log_file_def setupLogLevel_Path SetWriter_def Store_def Let_def)
qed


lemma setupWriter_exact:
  "\<exists>err w1. setupWriter rt c w = (err, w1) \<and>
     setupOnce w1 = setupOnce w \<and> conf w1 = conf w \<and> timeFormat w1 = timeFormat w \<and>
     plainEncodingSep w1 = plainEncodingSep w \<and> withColor w1 = withColor w \<and>
     encoding w1 = encoding w \<and>
     logLevel w1 = (if Mode c = fileMode then logLevel (setupLogLevel c w) else logLevel w) \<and>
     written w1 = written w \<and> stdlog w1 = stdlog w \<and> closed w1 = closed w \<and>
     (err, writer w1, created w1) =
       (if Mode c = fileMode then
          (case NewLogger (os rt) (log_file rt c) of
             Inl e \<Rightarrow> (Some e, writer w, created w)
           | Inr l \<Rightarrow>
               (None, Some (defaultWriter (fileLogger (created w) (log_file rt c))),
                created w + 1))
        else (None, Some (defaultWriter (logWriter (created w))), created w + 1))"
proof (cases "Mode c = fileMode")
  case False
  then show ?thesis by (simp add: setupWriter_console)
next
  case True
  have k: "created (setupLogLevel c w) = created w" "writer (setupLogLevel c w) = writer w"
    "setupOnce (setupLogLevel c w) = setupOnce w" "conf (setupLogLevel c w) = conf w"
    "timeFormat (setupLogLevel c w) = timeFormat w"
    "plainEncodingSep (setupLogLevel c w) = plainEncodingSep w"
    "withColor (setupLogLevel c w) = withColor w" "encoding (setupLogLevel c w) = encoding w"
    "written (setupLogLevel c w) = written w" "stdlog (setupLogLevel c w) = stdlog w"
    "closed (setupLogLevel c w) = closed w"
    by (simp_all add: setupLogLevel_def SetLevel_def)
  show ?thesis
  proof (cases "NewLogger (os rt) (log_file rt c)")
    case (Inl e)
    with True k show ?thesis by (simp add: setupWriter_file_fails)
  next
    case (Inr l)
    with True k show ?thesis by (simp add: setupWriter_file_opens)
  qed
qed

text \<open>
  C6, as stated, fails: the level after the first \<^verbatim>\<open>Load\<close> need not come from its
  configuration. The same first configuration, with the empty string for its level,
  leaves the threshold at info in a new process and at error after
  \<^verbatim>\<open>SetLevel(ErrorLevel)\<close>.
\<close>

theorem Load_level_not_from_conf:
  "logLevel (snd (Load example_runtime conf_no_level initial)) = InfoLevel \<and>
   logLevel (snd (Load example_runtime conf_no_level (SetLevel ErrorLevel initial))) = ErrorLevel \<and>
   InfoLevel \<noteq> ErrorLevel"
  by (simp add: Load_def setupWriter_console setupEncoding_def setupWithColor_def
      setupPlainEncodingSep_def setupTimeFormat_def setupPath_def setupLogLevel_def
      SetLevel_def conf_no_level_def conf_error_def fileMode_def levelInfo_def levelError_def
      initial_def InfoLevel_def ErrorLevel_def)

text \<open>
  C6, amended. The first \<^verbatim>\<open>Load\<close> of a process applies its configuration once: it
  records the configuration; sets the level to the one it names, and leaves the level as
  it was when it names neither \<open>info\<close> nor \<open>error\<close>; sets the time format and the
  separator when they are not empty, colour when asked for, and the encoding; and
  installs the writer: a new console writer, or in file mode a writer on the file
  \<^verbatim>\<open>logx.log\<close> in the configured directory (\<^verbatim>\<open>logs\<close> when the path is empty), unless
  that file cannot be opened, when \<^verbatim>\<open>Load\<close> returns the error and leaves the active
  writer as it was. It writes nothing. Every later \<^verbatim>\<open>Load\<close>, with whatever
  configuration, returns nil and changes nothing.
\<close>

theorem Load_first_wins:
  assumes "\<not> setupOnce w"
  shows "\<exists>err w1.
           Load rt c w = (err, w1) \<and>
           Load_calls rt cs w1 = (replicate (length cs) None, w1) \<and>
           Load_calls rt (c # cs) w = (err # replicate (length cs) None, w1) \<and>
           setupOnce w1 \<and> conf w1 = Some c \<and>
           logLevel w1 = (if Level c = levelInfo then InfoLevel
                          else if Level c = levelError then ErrorLevel else logLevel w) \<and>
           timeFormat w1 = (if TimeFormat c = [] then timeFormat w else TimeFormat c) \<and>
           plainEncodingSep w1 =
             (if PlainEncodingSep c = [] then plainEncodingSep w else PlainEncodingSep c) \<and>
           withColor w1 = (if WithColor c then True else withColor w) \<and>
           encoding w1 = (if Encoding c = plainEncoding then plainEncodingType
                          else jsonEncodingType) \<and>
           (err, writer w1, created w1) =
             (if Mode c = fileMode then
                (case NewLogger (os rt) (log_file rt c) of
                   Inl e \<Rightarrow> (Some e, writer w, created w)
                 | Inr l \<Rightarrow>
                     (None, Some (defaultWriter (fileLogger (created w) (log_file rt c))),
                      created w + 1))
              else (None, Some (defaultWriter (logWriter (created w))), created w + 1)) \<and>
           written w1 = written w \<and> stdlog w1 = stdlog w \<and> closed w1 = closed w"
proof -
  let ?w0 = "setupEncoding c (setupWithColor c (setupPlainEncodingSep c (setupTimeFormat c
               (setupPath c (setupLogLevel c (w\<lparr>setupOnce := True, conf := Some c\<rparr>))))))"
  from setupWriter_exact [of rt c ?w0] obtain err w1 where
    s: "setupWriter rt c ?w0 = (err, w1)"
    and k: "setupOnce w1 = setupOnce ?w0" "conf w1 = conf ?w0" "timeFormat w1 = timeFormat ?w0"
      "plainEncodingSep w1 = plainEncodingSep ?w0" "withColor w1 = withColor ?w0"
      "encoding w1 = encoding ?w0"
      "logLevel w1 = (if Mode c = fileMode then logLevel (setupLogLevel c ?w0) else logLevel ?w0)"
      "written w1 = written ?w0" "stdlog w1 = stdlog ?w0" "closed w1 = closed ?w0"
    and t: "(err, writer w1, created w1) =
       (if Mode c = fileMode then
          (case NewLogger (os rt) (log_file rt c) of
             Inl e \<Rightarrow> (Some e, writer ?w0, created ?w0)
           | Inr l \<Rightarrow>
               (None, Some (defaultWriter (fileLogger (created ?w0) (log_file rt c))),
                created ?w0 + 1))
        else (None, Some (defaultWriter (logWriter (created ?w0))), created ?w0 + 1))"
    by blast
  have l: "Load rt c w = (err, w1)"
    using assms s by (simp add: Load_def)
  have p: "setupOnce ?w0" "conf ?w0 = Some c"
    "logLevel ?w0 = (if Level c = levelInfo then InfoLevel
                      else if Level c = levelError then ErrorLevel else logLevel w)"
    "logLevel (setupLogLevel c ?w0) = logLevel ?w0"
    "timeFormat ?w0 = (if TimeFormat c = [] then timeFormat w else TimeFormat c)"
    "plainEncodingSep ?w0 =
       (if PlainEncodingSep c = [] then plainEncodingSep w else PlainEncodingSep c)"
    "withColor ?w0 = (if WithColor c then True else withColor w)"
    "encoding ?w0 = (if Encoding c = plainEncoding then plainEncodingType else jsonEncodingType)"
    "writer ?w0 = writer w" "created ?w0 = created w"
    "written ?w0 = written w" "stdlog ?w0 = stdlog w" "closed ?w0 = closed w"
    by (simp_all add: setupEncoding_def setupWithColor_def setupPlainEncodingSep_def
        setupTimeFormat_def setupPath_def setupLogLevel_def SetLevel_def)
  have o: "setupOnce w1" using k(1) p(1) by simp
  have r: "Load_calls rt cs w1 = (replicate (length cs) None, w1)"
    using o by (rule Load_calls_after_first)
  have lv: "logLevel w1 = (if Level c = levelInfo then InfoLevel
                          else if Level c = levelError then ErrorLevel else logLevel w)"
    using k(7) p(3,4) by (simp split: if_splits)
  have t': "(err, writer w1, created w1) =
             (if Mode c = fileMode then
                (case NewLogger (os rt) (log_file rt c) of
                   Inl e \<Rightarrow> (Some e, writer w, created w)
                 | Inr l \<Rightarrow>
                     (None, Some (defaultWriter (fileLogger (created w) (log_file rt c))),
                      created w + 1))
              else (None, Some (defaultWriter (logWriter (created w))), created w + 1))"
    using t unfolding p(9,10) .
  show ?thesis
    using l r o lv t' k(2,3,4,5,6,8,9,10) p(2,5,6,7,8,11,12,13)
    by (intro exI [of _ err] exI [of _ w1]) simp
qed


lemma log_file_conf_file:
  "log_file example_runtime conf_file = ''/var/log/app/logx.log''"
  "log_file read_only_runtime conf_file = ''/var/log/app/logx.log''"
  by (simp_all add: log_file_def conf_file_def conf_error_def example_runtime_def
      read_only_runtime_def)

lemma NewLogger_conf_file:
  "\<exists>l. NewLogger (os example_runtime) ''/var/log/app/logx.log'' = Inr l"
  "NewLogger (os read_only_runtime) ''/var/log/app/logx.log'' =
     Inl (OtherError ''permission denied'')"
  by (simp_all add: NewLogger_def init_def startWorker_def example_runtime_def
      read_only_runtime_def quiet_env_def)

theorem Load_first_wins_witness:
  "\<not> setupOnce initial \<and>
   (\<exists>w1. Load_calls example_runtime [conf_file, conf_info] initial = ([None, None], w1) \<and>
         conf w1 = Some conf_file \<and> logLevel w1 = ErrorLevel \<and>
         encoding w1 = jsonEncodingType \<and>
         writer w1 = Some (defaultWriter (fileLogger 0 ''/var/log/app/logx.log''))) \<and>
   (\<exists>w1. Load_calls read_only_runtime [conf_file, conf_info] initial =
           ([Some (OtherError ''permission denied''), None], w1) \<and>
         conf w1 = Some conf_file \<and> logLevel w1 = ErrorLevel \<and> writer w1 = None)"
proof -
  have h: "\<not> setupOnce initial"
    by (simp add: initial_def)
  have c: "Mode conf_file = fileMode" "Level conf_file = levelError"
    "Level conf_file \<noteq> levelInfo" "Encoding conf_file \<noteq> plainEncoding"
    by (simp_all add: conf_file_def conf_error_def fileMode_def levelError_def levelInfo_def
        plainEncoding_def)
  have i: "writer initial = None" "created initial = 0"
    by (simp_all add: initial_def)
  obtain l where n: "NewLogger (os example_runtime) ''/var/log/app/logx.log'' = Inr l"
    using NewLogger_conf_file(1) by blast
  have a: "\<exists>w1. Load_calls example_runtime [conf_file, conf_info] initial = ([None, None], w1) \<and>
         conf w1 = Some conf_file \<and> logLevel w1 = ErrorLevel \<and>
         encoding w1 = jsonEncodingType \<and>
         writer w1 = Some (defaultWriter (fileLogger 0 ''/var/log/app/logx.log''))"
    using Load_first_wins [OF h, of example_runtime conf_file "[conf_info]"] c i n
    by (auto simp: log_file_conf_file)
  have b: "\<exists>w1. Load_calls read_only_runtime [conf_file, conf_info] initial =
           ([Some (OtherError ''permission denied''), None], w1) \<and>
         conf w1 = Some conf_file \<and> logLevel w1 = ErrorLevel \<and> writer w1 = None"
    using Load_first_wins [OF h, of read_only_runtime conf_file "[conf_info]"] c i
    by (auto simp: log_file_conf_file NewLogger_conf_file(2))
  show ?thesis using h a b by simp
qed

subsection \<open>The active writer\<close>

lemma getWriter_result:
  "\<exists>x w1. getWriter w = (Some x, w1) \<and> writer w1 = Some x \<and>
     (case writer w of
        Some y \<Rightarrow> x = y \<and> w1 = w
      | None \<Rightarrow> x = defaultWriter (logWriter (created w)) \<and>
                w1 = w\<lparr>created := created w + 1, writer := Some x\<rparr>)"
  by (cases "writer w")
     (simp_all add: getWriter_def Load_writer_def newConsoleWriter_def StoreIfNil_def Let_def)


lemma logx_Close_result:
  "logx_Close rt w =
     (case writer w of
        None \<Rightarrow> (None, w\<lparr>writer := None\<rparr>)
      | Some y \<Rightarrow> (Close_result rt (lw y), w\<lparr>writer := None, closed := closed w @ [lw y]\<rparr>))"
  by (cases "writer w") (simp_all add: logx_Close_def Swap_def Writer_Close_def io_Close_def)

lemma nil_writer_update: "writer w = None \<Longrightarrow> w\<lparr>writer := None\<rparr> = w"
  by (cases w) simp


lemma facade_never_panics:
  "(\<exists>w'. Info rt v w = Some w') \<and> (\<exists>w'. Infof rt f v w = Some w') \<and>
   (\<exists>w'. Error rt v w = Some w') \<and> (\<exists>w'. Errorf rt f v w = Some w')"
proof -
  obtain x w1 where g: "getWriter w = (Some x, w1)"
    using getWriter_result [of w] by blast
  show ?thesis
    by (simp add: Info_def Infof_def Error_def Errorf_def g infoTextSync_def errorTextSync_def)
qed

text \<open>
  C9. \<^verbatim>\<open>getWriter\<close> never returns nil: it returns the active writer when there is
  one, and otherwise makes a console writer, stores it in the empty slot and returns it;
  \<^verbatim>\<open>StoreIfNil\<close> of a writer returns a writer whatever the slot holds. The package's
  \<^verbatim>\<open>Close\<close> empties the slot, closing the writer that was active and returning nil
  when none was. Right after it \<^verbatim>\<open>getWriter\<close> installs a new console writer, and the
  logging calls return instead of failing on a nil writer.
\<close>

theorem getWriter_never_nil:
  "(\<exists>x w1. getWriter w = (Some x, w1) \<and> writer w1 = Some x \<and>
      (case writer w of
         Some y \<Rightarrow> x = y \<and> w1 = w
       | None \<Rightarrow> x = defaultWriter (logWriter (created w)) \<and>
                 w1 = w\<lparr>created := created w + 1, writer := Some x\<rparr>)) \<and>
   fst (StoreIfNil (Some v) w) = (case writer w of None \<Rightarrow> Some v | Some y \<Rightarrow> Some y) \<and>
   logx_Close rt w =
     (case writer w of
        None \<Rightarrow> (None, w)
      | Some y \<Rightarrow> (Close_result rt (lw y), w\<lparr>writer := None, closed := closed w @ [lw y]\<rparr>)) \<and>
   writer (snd (logx_Close rt w)) = None \<and>
   fst (getWriter (snd (logx_Close rt w))) = Some (defaultWriter (logWriter (created w))) \<and>
   writer (snd (getWriter (snd (logx_Close rt w)))) = Some (defaultWriter (logWriter (created w))) \<and>
   (\<exists>w'. Info rt vs (snd (logx_Close rt w)) = Some w') \<and>
   (\<exists>w'. Infof rt f vs (snd (logx_Close rt w)) = Some w') \<and>
   (\<exists>w'. Error rt vs (snd (logx_Close rt w)) = Some w') \<and>
   (\<exists>w'. Errorf rt f vs (snd (logx_Close rt w)) = Some w')"
proof -
  have s: "fst (StoreIfNil (Some v) w) = (case writer w of None \<Rightarrow> Some v | Some y \<Rightarrow> Some y)"
    by (cases "writer w") (simp_all add: StoreIfNil_def Let_def)
  have c: "logx_Close rt w =
     (case writer w of
        None \<Rightarrow> (None, w)
      | Some y \<Rightarrow> (Close_result rt (lw y), w\<lparr>writer := None, closed := closed w @ [lw y]\<rparr>))"
    by (cases "writer w") (simp_all add: logx_Close_result nil_writer_update)
  have n: "writer (snd (logx_Close rt w)) = None"
    by (cases "writer w") (simp_all add: logx_Close_result)
  have k: "created (snd (logx_Close rt w)) = created w"
    by (cases "writer w") (simp_all add: logx_Close_result)
  from getWriter_result [of "snd (logx_Close rt w)"]
  have g: "fst (getWriter (snd (logx_Close rt w))) = Some (defaultWriter (logWriter (created w)))"
    "writer (snd (getWriter (snd (logx_Close rt w)))) = Some (defaultWriter (logWriter (created w)))"
    using n k by auto
  show ?thesis
    using getWriter_result [of w] s c n g
      facade_never_panics [of rt vs "snd (logx_Close rt w)" f]
    by blast
qed

subsection \<open>The level filter\<close>





subsection \<open>Concrete runs of the logging calls\<close>

lemma getWriter_initial:
  "getWriter initial =
     (Some (defaultWriter (logWriter 0)),
      initial\<lparr>created := 1, writer := Some (defaultWriter (logWriter 0))\<rparr>)"
  by (simp add: getWriter_def Load_writer_def newConsoleWriter_def StoreIfNil_def Let_def
      initial_def)

theorem getWriter_never_nil_witness:
  "logx_Close example_runtime (snd (getWriter initial)) =
     (None, initial\<lparr>created := 1, writer := None, closed := [logWriter 0]\<rparr>) \<and>
   fst (getWriter (snd (logx_Close example_runtime (snd (getWriter initial))))) =
     Some (defaultWriter (logWriter 1)) \<and>
   logx_Close example_runtime initial = (None, initial)"
proof -
  define w1 where "w1 = initial\<lparr>created := 1, writer := Some (defaultWriter (logWriter 0))\<rparr>"
  have s: "snd (getWriter initial) = w1"
    by (simp add: getWriter_initial w1_def)
  have p: "writer w1 = Some (defaultWriter (logWriter 0))" "created w1 = 1" "closed w1 = []"
    "writer initial = None"
    by (simp_all add: w1_def initial_def)
  have c: "Close_result example_runtime (logWriter 0) = None"
    by (simp add: example_runtime_def)
  note t1 = getWriter_never_nil [where w = w1 and rt = example_runtime]
  note t2 = getWriter_never_nil [where w = initial and rt = example_runtime]
  have a: "logx_Close example_runtime w1 = (None, w1\<lparr>writer := None, closed := [logWriter 0]\<rparr>)"
    using t1 [THEN conjunct2, THEN conjunct2, THEN conjunct1] by (simp add: p c)
  have b: "fst (getWriter (snd (logx_Close example_runtime w1))) = Some (defaultWriter (logWriter 1))"
    using t1 [THEN conjunct2, THEN conjunct2, THEN conjunct2, THEN conjunct2, THEN conjunct1]
    by (simp add: p)
  have d: "logx_Close example_runtime initial = (None, initial)"
    using t2 [THEN conjunct2, THEN conjunct2, THEN conjunct1] by (simp add: p)
  have e: "w1\<lparr>writer := None, closed := [logWriter 0]\<rparr> =
           initial\<lparr>created := 1, writer := None, closed := [logWriter 0]\<rparr>"
    by (simp add: w1_def)
  show ?thesis
    unfolding s using a b d e by simp
qed



end
